theory Spec2Isabelle
  imports Main "HOL-Library.AList" "HOL-Library.Char_ord" "HOL-Library.List_Lexorder"
begin

section \<open>Strings\<close>

text \<open>
  A Go string is a sequence of bytes, here a \<open>char list\<close>. \<open>strings.TrimSpace\<close> removes
  the leading and the trailing white space "as defined by Unicode": the runes of
  \<open>unicode.IsSpace\<close>, listed below by their UTF-8 encodings (tab, line feed, vertical tab,
  form feed, carriage return, space, U+0085, U+00A0, U+1680, U+2000 to U+200A, U+2028,
  U+2029, U+202F, U+205F, U+3000). A byte sequence that is not one of these encodings
  decodes to a rune that is not white space, so trimming stops there.
\<close>

definition whiteSpace :: "string list" where
  "whiteSpace =
     [[CHR 0x09], [CHR 0x0A], [CHR 0x0B], [CHR 0x0C], [CHR 0x0D], [CHR 0x20],
      [CHR 0xC2, CHR 0x85], [CHR 0xC2, CHR 0xA0],
      [CHR 0xE1, CHR 0x9A, CHR 0x80],
      [CHR 0xE2, CHR 0x80, CHR 0x80], [CHR 0xE2, CHR 0x80, CHR 0x81],
      [CHR 0xE2, CHR 0x80, CHR 0x82], [CHR 0xE2, CHR 0x80, CHR 0x83],
      [CHR 0xE2, CHR 0x80, CHR 0x84], [CHR 0xE2, CHR 0x80, CHR 0x85],
      [CHR 0xE2, CHR 0x80, CHR 0x86], [CHR 0xE2, CHR 0x80, CHR 0x87],
      [CHR 0xE2, CHR 0x80, CHR 0x88], [CHR 0xE2, CHR 0x80, CHR 0x89],
      [CHR 0xE2, CHR 0x80, CHR 0x8A],
      [CHR 0xE2, CHR 0x80, CHR 0xA8], [CHR 0xE2, CHR 0x80, CHR 0xA9],
      [CHR 0xE2, CHR 0x80, CHR 0xAF], [CHR 0xE2, CHR 0x81, CHR 0x9F],
      [CHR 0xE3, CHR 0x80, CHR 0x80]]"

text \<open>The number of bytes of the white-space rune a string starts (ends) with; 0 if none.\<close>

definition leadingSpace :: "string \<Rightarrow> nat" where
  "leadingSpace s =
     (case find (\<lambda>w. take (length w) s = w) whiteSpace of
        None \<Rightarrow> 0
      | Some w \<Rightarrow> length w)"

definition trailingSpace :: "string \<Rightarrow> nat" where
  "trailingSpace s =
     (case find (\<lambda>w. drop (length s - length w) s = w) whiteSpace of
        None \<Rightarrow> 0
      | Some w \<Rightarrow> length w)"

function TrimLeft :: "string \<Rightarrow> string" where
  "TrimLeft s = (if leadingSpace s = 0 then s else TrimLeft (drop (leadingSpace s) s))"
  by pat_completeness auto
termination
proof (relation "measure length")
  show "wf (measure length)" by simp
next
  fix s :: string
  assume a: "leadingSpace s \<noteq> 0"
  have "leadingSpace [] = 0" by (simp add: leadingSpace_def whiteSpace_def)
  with a have "s \<noteq> []" by auto
  with a show "(drop (leadingSpace s) s, s) \<in> measure length" by simp
qed

function TrimRight :: "string \<Rightarrow> string" where
  "TrimRight s =
     (if trailingSpace s = 0 then s else TrimRight (take (length s - trailingSpace s) s))"
  by pat_completeness auto
termination
proof (relation "measure length")
  show "wf (measure length)" by simp
next
  fix s :: string
  assume a: "trailingSpace s \<noteq> 0"
  have "trailingSpace [] = 0" by (simp add: trailingSpace_def whiteSpace_def)
  with a have "s \<noteq> []" by auto
  with a show "(take (length s - trailingSpace s) s, s) \<in> measure length" by simp
qed

declare TrimLeft.simps [simp del]
declare TrimRight.simps [simp del]

definition TrimSpace :: "string \<Rightarrow> string" where
  "TrimSpace s = TrimRight (TrimLeft s)"

text \<open>\<open>strings.Join\<close> with the separator \<open>","\<close>; it states what an identity looks like.\<close>

fun commaJoin :: "string list \<Rightarrow> string" where
  "commaJoin [] = []"
| "commaJoin [x] = x"
| "commaJoin (x # y # zs) = x @ '','' @ commaJoin (y # zs)"

section \<open>The rule record and its identity\<close>

text \<open>
  \<^verbatim>\<open>type CasbinRule struct { PType, V0, V1, V2, V3, V4, V5 string }\<close>
\<close>

record CasbinRule =
  PType :: string
  V0 :: string
  V1 :: string
  V2 :: string
  V3 :: string
  V4 :: string
  V5 :: string

text \<open>The closure \<open>appendOrTerminate\<close> of \<open>CasbinRule.String\<close>.\<close>

definition appendOrTerminate :: "string \<Rightarrow> string \<Rightarrow> string \<times> bool" where
  "appendOrTerminate currentStr strToAdd =
     (let tmp = TrimSpace strToAdd in
      if tmp = [] then (currentStr, False)
      else if currentStr = [] then (tmp, True)
      else (currentStr @ '','' @ tmp, True))"

text \<open>
  \<open>func (cr *CasbinRule) String() string\<close>: the type tag, then the slots, each through
  \<open>appendOrTerminate\<close>, returning at the first one that was not added.
\<close>

definition CasbinRule_String :: "CasbinRule \<Rightarrow> string" where
  "CasbinRule_String cr =
     (case appendOrTerminate [] (PType cr) of (res, added) \<Rightarrow>
      if \<not> added then res else
      case appendOrTerminate res (V0 cr) of (res, added) \<Rightarrow>
      if \<not> added then res else
      case appendOrTerminate res (V1 cr) of (res, added) \<Rightarrow>
      if \<not> added then res else
      case appendOrTerminate res (V2 cr) of (res, added) \<Rightarrow>
      if \<not> added then res else
      case appendOrTerminate res (V3 cr) of (res, added) \<Rightarrow>
      if \<not> added then res else
      case appendOrTerminate res (V4 cr) of (res, added) \<Rightarrow>
      if \<not> added then res else
      case appendOrTerminate res (V5 cr) of (res, added) \<Rightarrow> res)"

text \<open>
  The values \<open>String\<close> reads, in its order, and the tokens that end up in the identity:
  the trimmed values up to the first one that is empty after trimming. The tokens after
  the first (the type tag's) are the slot values that contributed to the identity.
\<close>

definition ruleFields :: "CasbinRule \<Rightarrow> string list" where
  "ruleFields cr = [PType cr, V0 cr, V1 cr, V2 cr, V3 cr, V4 cr, V5 cr]"

definition slots :: "CasbinRule \<Rightarrow> string list" where
  "slots cr = [V0 cr, V1 cr, V2 cr, V3 cr, V4 cr, V5 cr]"

definition identityTokens :: "CasbinRule \<Rightarrow> string list" where
  "identityTokens cr = takeWhile (\<lambda>t. t \<noteq> []) (map TrimSpace (ruleFields cr))"

definition identitySlots :: "CasbinRule \<Rightarrow> string list" where
  "identitySlots cr = tl (identityTokens cr)"

section \<open>Encoding and decoding a rule\<close>

text \<open>\<open>func savePolicyLine(ptype string, rule []string) CasbinRule\<close>\<close>

definition savePolicyLine :: "string \<Rightarrow> string list \<Rightarrow> CasbinRule" where
  "savePolicyLine ptype rule =
     \<lparr>PType = ptype,
      V0 = (if length rule > 0 then rule ! 0 else []),
      V1 = (if length rule > 1 then rule ! 1 else []),
      V2 = (if length rule > 2 then rule ! 2 else []),
      V3 = (if length rule > 3 then rule ! 3 else []),
      V4 = (if length rule > 4 then rule ! 4 else []),
      V5 = (if length rule > 5 then rule ! 5 else [])\<rparr>"

text \<open>
  The policy engine's model (casbin's \<open>model.Model\<close>): a Go map from a section name to a
  map from a rule type to a pointer to an assertion, whose \<open>Policy\<close> is the list of
  rules. The maps are association lists (with the map's update and lookup), so that
  \<open>SavePolicy\<close> can range over them; an assertion's other fields are not touched by the
  adapter and are left out. A type without an entry is Go's nil pointer.
\<close>

record Assertion =
  Policy :: "string list list"

type_synonym AssertionMap = "(string \<times> Assertion) list"

type_synonym Model = "(string \<times> AssertionMap) list"

text \<open>The run-time panics of the Go code.\<close>

datatype panic = SliceBoundsOutOfRange | IndexOutOfRange | NilPointerDereference

text \<open>
  The tokens \<open>loadPolicyLine\<close> collects: each slot in turn, jumping to \<open>LineEnd\<close> at the
  first one that is the empty string.
\<close>

definition loadPolicyLine_tokens :: "CasbinRule \<Rightarrow> string list" where
  "loadPolicyLine_tokens line =
     (if V0 line \<noteq> [] then
        (if V1 line \<noteq> [] then
           (if V2 line \<noteq> [] then
              (if V3 line \<noteq> [] then
                 (if V4 line \<noteq> [] then
                    (if V5 line \<noteq> [] then
                       [V0 line, V1 line, V2 line, V3 line, V4 line, V5 line]
                     else [V0 line, V1 line, V2 line, V3 line, V4 line])
                  else [V0 line, V1 line, V2 line, V3 line])
               else [V0 line, V1 line, V2 line])
            else [V0 line, V1 line])
         else [V0 line])
      else [])"

text \<open>
  \<open>func loadPolicyLine(line CasbinRule, model model.Model)\<close>. \<open>key[:1]\<close> panics on the
  empty string; \<open>model[sec][key].Policy\<close> dereferences a nil pointer when the model has
  no assertion for the section and the type. The model is changed in place: the new
  model is returned.
\<close>

definition loadPolicyLine :: "CasbinRule \<Rightarrow> Model \<Rightarrow> panic + Model" where
  "loadPolicyLine line model =
     (let key = PType line in
      if length key < 1 then Inl SliceBoundsOutOfRange
      else
        let sec = take 1 key;
            tokens = loadPolicyLine_tokens line
        in case map_of model sec of
             None \<Rightarrow> Inl NilPointerDereference
           | Some am \<Rightarrow>
               (case map_of am key of
                  None \<Rightarrow> Inl NilPointerDereference
                | Some ast \<Rightarrow>
                    Inr (AList.update sec
                          (AList.update key (ast\<lparr>Policy := Policy ast @ [tokens]\<rparr>) am)
                          model)))"

section \<open>Keys and the partition\<close>

text \<open>
  \<open>datastore.Key\<close> of the store's client library: kind, numeric id, name, parent and
  namespace. \<open>IDKey\<close> and \<open>NameKey\<close> build a key from a kind, an id or a name, and a
  parent; as the library documents, "the namespace of the new key is empty", and the
  adapter assigns \<open>key.Namespace\<close> afterwards where it means to. A key with no name and
  no id is incomplete (\<open>Key.Incomplete\<close>): it names no stored entity yet.
\<close>

datatype Key =
  Key (KeyKind: string) (KeyID: int) (KeyName: string) (KeyParent: "Key option")
    (KeyNamespace: string)

definition IDKey :: "string \<Rightarrow> int \<Rightarrow> Key option \<Rightarrow> Key" where
  "IDKey kind ident parent = Key kind ident [] parent []"

definition NameKey :: "string \<Rightarrow> string \<Rightarrow> Key option \<Rightarrow> Key" where
  "NameKey kind name parent = Key kind 0 name parent []"

definition setNamespace :: "string \<Rightarrow> Key \<Rightarrow> Key" where
  "setNamespace ns k = Key (KeyKind k) (KeyID k) (KeyName k) (KeyParent k) ns"

definition Incomplete :: "Key \<Rightarrow> bool" where
  "Incomplete k = (KeyName k = [] \<and> KeyID k = 0)"

text \<open>\<open>type Config struct\<close>; the two deadlines are \<open>time.Duration\<close>s, in nanoseconds.\<close>

record Config =
  Kind :: string
  Namespace :: string
  Debug :: bool
  LoadSaveFilterDeadline :: int
  AddRemoveDeadline :: int

text \<open>
  \<open>type adapter struct\<close>. Its \<open>db\<close> is the handle of the store, whose state the
  operations below take and return.
\<close>

record adapter =
  config :: Config

definition casbinKind :: string where
  "casbinKind = ''casbin''"

definition NewAdapterWithConfig :: "Config \<Rightarrow> adapter" where
  "NewAdapterWithConfig cfg =
     \<lparr>config = cfg
        \<lparr>Kind := (if TrimSpace (Kind cfg) = [] then casbinKind else Kind cfg),
         LoadSaveFilterDeadline :=
           (if LoadSaveFilterDeadline cfg = 0 then 60000000000 * 10
            else LoadSaveFilterDeadline cfg),
         AddRemoveDeadline :=
           (if AddRemoveDeadline cfg = 0 then 1000000000 * 30
            else AddRemoveDeadline cfg)\<rparr>\<rparr>"

definition pseudoRootKey :: "adapter \<Rightarrow> Key" where
  "pseudoRootKey a = setNamespace (Namespace (config a)) (IDKey (Kind (config a)) 1 None)"

text \<open>
  The key each operation builds for a record. \<open>SavePolicy\<close> and \<open>AddPolicy\<close> assign the
  namespace after \<open>NameKey\<close>; \<open>RemovePolicy\<close> passes the key of \<open>NameKey\<close> on as it is.
\<close>

definition SavePolicy_key :: "adapter \<Rightarrow> Key \<Rightarrow> CasbinRule \<Rightarrow> Key" where
  "SavePolicy_key a ancestor line =
     (let name = CasbinRule_String line;
          key = NameKey (Kind (config a)) name (Some ancestor)
      in setNamespace (Namespace (config a)) key)"

definition AddPolicy_key :: "adapter \<Rightarrow> CasbinRule \<Rightarrow> Key" where
  "AddPolicy_key a line =
     (let name = CasbinRule_String line;
          key = NameKey (Kind (config a)) name (Some (pseudoRootKey a))
      in setNamespace (Namespace (config a)) key)"

definition RemovePolicy_key :: "adapter \<Rightarrow> CasbinRule \<Rightarrow> Key" where
  "RemovePolicy_key a line =
     (let name = CasbinRule_String line
      in NameKey (Kind (config a)) name (Some (pseudoRootKey a)))"

section \<open>The document store\<close>

text \<open>
  Modelled from the spec: the document store is the adapter's collaborator (the client
  library \<open>cloud.google.com/go/datastore\<close>), not code of the repository. The spec names
  what the adapter depends on: get-all-by-query, put, delete, delete-many, an atomic
  multi-operation transaction, ancestor and namespace partitioning, and equality and
  inequality filters on named fields. The model keeps that, with the behaviour the
  library documents for it. The state of the store is the list of stored entities, each
  under its key, and the counter the store takes generated ids from. A call of the
  client returns an error or takes effect: the argument \<open>fault\<close> of each call below is
  the error the store raises on that call, if any (transport, deadline, a rejected
  argument), and a call that raised leaves the store as it was.
\<close>

datatype error = ErrNoSuchEntity | ErrOther string

record Datastore =
  entities :: "(Key \<times> CasbinRule) list"
  nextID :: int

text \<open>
  A query: kind, namespace, property filters, ancestor, and whether only keys are
  asked for. \<open>Filter("ptype >", "")\<close> is the filter on the property \<open>ptype\<close> with the
  operator \<open>>\<close>; strings are ordered bytewise.
\<close>

datatype operator = Equal | GreaterThan

record Query =
  q_kind :: string
  q_namespace :: string
  q_filters :: "(string \<times> operator \<times> string) list"
  q_ancestor :: "Key option"
  q_keysOnly :: bool

definition NewQuery :: "string \<Rightarrow> Query" where
  "NewQuery kind =
     \<lparr>q_kind = kind, q_namespace = [], q_filters = [], q_ancestor = None,
      q_keysOnly = False\<rparr>"

definition Query_Namespace :: "string \<Rightarrow> Query \<Rightarrow> Query" where
  "Query_Namespace ns q = q\<lparr>q_namespace := ns\<rparr>"

definition Query_Filter :: "string \<Rightarrow> operator \<Rightarrow> string \<Rightarrow> Query \<Rightarrow> Query" where
  "Query_Filter field oper v q = q\<lparr>q_filters := q_filters q @ [(field, oper, v)]\<rparr>"

definition Query_Ancestor :: "Key \<Rightarrow> Query \<Rightarrow> Query" where
  "Query_Ancestor k q = q\<lparr>q_ancestor := Some k\<rparr>"

definition Query_KeysOnly :: "Query \<Rightarrow> Query" where
  "Query_KeysOnly q = q\<lparr>q_keysOnly := True\<rparr>"

text \<open>The stored properties of a rule, by the names of the struct tags.\<close>

definition property :: "CasbinRule \<Rightarrow> string \<Rightarrow> string option" where
  "property line name =
     (if name = ''ptype'' then Some (PType line)
      else if name = ''v0'' then Some (V0 line)
      else if name = ''v1'' then Some (V1 line)
      else if name = ''v2'' then Some (V2 line)
      else if name = ''v3'' then Some (V3 line)
      else if name = ''v4'' then Some (V4 line)
      else if name = ''v5'' then Some (V5 line)
      else None)"

definition filterHolds :: "CasbinRule \<Rightarrow> string \<times> operator \<times> string \<Rightarrow> bool" where
  "filterHolds line f =
     (case f of (field, oper, v) \<Rightarrow>
        (case property line field of
           None \<Rightarrow> False
         | Some x \<Rightarrow> (case oper of Equal \<Rightarrow> x = v | GreaterThan \<Rightarrow> v < x)))"

fun hasAncestor :: "Key \<Rightarrow> Key \<Rightarrow> bool" where
  "hasAncestor anc (Key kind ident name parent ns) =
     (Key kind ident name parent ns = anc \<or>
      (case parent of None \<Rightarrow> False | Some p \<Rightarrow> hasAncestor anc p))"

definition matches :: "Query \<Rightarrow> Key \<times> CasbinRule \<Rightarrow> bool" where
  "matches q e =
     (case e of (k, line) \<Rightarrow>
        KeyKind k = q_kind q \<and> KeyNamespace k = q_namespace q \<and>
        (case q_ancestor q of None \<Rightarrow> True | Some anc \<Rightarrow> hasAncestor anc k) \<and>
        list_all (filterHolds line) (q_filters q))"

text \<open>
  \<open>Client.GetAll\<close>: the keys of the entities the query matches and, unless the query is
  keys-only, the entities, which the source receives in \<open>rules\<close>.
\<close>

definition GetAll ::
  "error option \<Rightarrow> Query \<Rightarrow> Datastore \<Rightarrow> error + (Key list \<times> CasbinRule list)" where
  "GetAll fault q db =
     (case fault of
        Some e \<Rightarrow> Inl e
      | None \<Rightarrow>
          (let found = filter (matches q) (entities db)
           in Inr (map fst found, if q_keysOnly q then [] else map snd found)))"

text \<open>
  Writing an entity. Under a complete key the entity replaces the one stored there
  (an upsert). Under an incomplete key (no name, no id) the store inserts it under a key
  with an id it generates, as the library documents for \<open>Put\<close>: "If k is an incomplete
  key, the returned key will be a unique key generated by the datastore."
\<close>

definition putEntity :: "Key \<Rightarrow> CasbinRule \<Rightarrow> Datastore \<Rightarrow> Datastore" where
  "putEntity key line db =
     (if Incomplete key then
        db\<lparr>entities :=
             entities db @
               [(Key (KeyKind key) (nextID db) (KeyName key) (KeyParent key)
                   (KeyNamespace key), line)],
           nextID := nextID db + 1\<rparr>
      else db\<lparr>entities := AList.update key line (entities db)\<rparr>)"

definition deleteEntity :: "Key \<Rightarrow> Datastore \<Rightarrow> Datastore" where
  "deleteEntity key db = db\<lparr>entities := AList.delete key (entities db)\<rparr>"

definition Put ::
  "error option \<Rightarrow> Key \<Rightarrow> CasbinRule \<Rightarrow> Datastore \<Rightarrow> error option \<times> Datastore" where
  "Put fault key line db =
     (case fault of Some e \<Rightarrow> (Some e, db) | None \<Rightarrow> (None, putEntity key line db))"

definition Delete :: "error option \<Rightarrow> Key \<Rightarrow> Datastore \<Rightarrow> error option \<times> Datastore" where
  "Delete fault key db =
     (case fault of Some e \<Rightarrow> (Some e, db) | None \<Rightarrow> (None, deleteEntity key db))"

definition DeleteMulti ::
  "error option \<Rightarrow> Key list \<Rightarrow> Datastore \<Rightarrow> error option \<times> Datastore" where
  "DeleteMulti fault keys db =
     (case fault of Some e \<Rightarrow> (Some e, db) | None \<Rightarrow> (None, fold deleteEntity keys db))"

text \<open>
  A transaction collects its mutations; nothing reaches the store before the commit.
  \<open>Client.RunInTransaction\<close> runs \<open>f\<close> on a new transaction: when \<open>f\<close> returns an
  error the transaction is rolled back and the error returned; when \<open>f\<close> returns nil
  the transaction is committed, which applies all its mutations or, when the commit
  fails, none. (The client's retries of \<open>f\<close> after a conflicting commit are left out.)
\<close>

datatype mutation = DeleteMutation Key | PutMutation Key CasbinRule

type_synonym Transaction = "mutation list"

definition Transaction_DeleteMulti ::
  "error option \<Rightarrow> Key list \<Rightarrow> Transaction \<Rightarrow> error option \<times> Transaction" where
  "Transaction_DeleteMulti fault keys tx =
     (case fault of
        Some e \<Rightarrow> (Some e, tx)
      | None \<Rightarrow> (None, tx @ map DeleteMutation keys))"

definition Transaction_Put ::
  "error option \<Rightarrow> Key \<Rightarrow> CasbinRule \<Rightarrow> Transaction \<Rightarrow> error option \<times> Transaction" where
  "Transaction_Put fault key line tx =
     (case fault of
        Some e \<Rightarrow> (Some e, tx)
      | None \<Rightarrow> (None, tx @ [PutMutation key line]))"

definition applyMutation :: "mutation \<Rightarrow> Datastore \<Rightarrow> Datastore" where
  "applyMutation m db =
     (case m of
        DeleteMutation k \<Rightarrow> deleteEntity k db
      | PutMutation k line \<Rightarrow> putEntity k line db)"

definition RunInTransaction ::
  "error option \<Rightarrow> (Transaction \<Rightarrow> error option \<times> Transaction) \<Rightarrow> Datastore \<Rightarrow>
   error option \<times> Datastore" where
  "RunInTransaction commitFault f db =
     (case f [] of
        (Some e, tx) \<Rightarrow> (Some e, db)
      | (None, tx) \<Rightarrow>
          (case commitFault of
             Some e \<Rightarrow> (Some e, db)
           | None \<Rightarrow> (None, fold applyMutation tx db)))"

text \<open>The errors the store raises during one operation of the adapter, call by call.\<close>

record Faults =
  GetAll_fault :: "error option"
  Put_fault :: "error option"
  Delete_fault :: "error option"
  DeleteMulti_fault :: "error option"
  Transaction_DeleteMulti_fault :: "error option"
  Transaction_Put_fault :: "nat \<Rightarrow> error option"
  Commit_fault :: "error option"

definition noFaults :: Faults where
  "noFaults =
     \<lparr>GetAll_fault = None, Put_fault = None, Delete_fault = None,
      DeleteMulti_fault = None, Transaction_DeleteMulti_fault = None,
      Transaction_Put_fault = (\<lambda>i. None), Commit_fault = None\<rparr>"

section \<open>The adapter's operations\<close>

definition newQuery :: "adapter \<Rightarrow> Query" where
  "newQuery a =
     Query_Ancestor (pseudoRootKey a)
       (Query_Filter ''ptype'' GreaterThan []
          (Query_Namespace (Namespace (config a)) (NewQuery (Kind (config a)))))"

text \<open>The loop of \<open>LoadPolicy\<close> over the fetched rules; a panic ends it.\<close>

fun loadPolicyLines :: "CasbinRule list \<Rightarrow> Model \<Rightarrow> panic + Model" where
  "loadPolicyLines [] model = Inr model"
| "loadPolicyLines (l # ls) model =
     (case loadPolicyLine l model of
        Inl p \<Rightarrow> Inl p
      | Inr model' \<Rightarrow> loadPolicyLines ls model')"

definition LoadPolicy ::
  "adapter \<Rightarrow> Faults \<Rightarrow> Model \<Rightarrow> Datastore \<Rightarrow> panic + (error option \<times> Model)" where
  "LoadPolicy a faults model db =
     (let query = newQuery a in
      case GetAll (GetAll_fault faults) query db of
        Inl err \<Rightarrow> Inr (Some err, model)
      | Inr (keys, rules) \<Rightarrow>
          (case loadPolicyLines rules model of
             Inl p \<Rightarrow> Inl p
           | Inr model' \<Rightarrow> Inr (None, model')))"

text \<open>
  The lines \<open>SavePolicy\<close> builds from one section of the model: for each type and
  assertion of the section, for each rule of its policy (a missing section is a nil
  map, with nothing to range over); first those of section \<open>"p"\<close>, then those of
  \<open>"g"\<close>. Go ranges over a map in an unspecified order; the model takes the order of
  the association list.
\<close>

definition policyLines :: "string \<Rightarrow> Model \<Rightarrow> CasbinRule list" where
  "policyLines sec model =
     concat (map (\<lambda>(ptype, ast). map (savePolicyLine ptype) (Policy ast))
       (case map_of model sec of None \<Rightarrow> [] | Some am \<Rightarrow> am))"

definition SavePolicy_lines :: "Model \<Rightarrow> CasbinRule list" where
  "SavePolicy_lines model = policyLines ''p'' model @ policyLines ''g'' model"

text \<open>The loop of puts inside the transaction; \<open>i\<close> counts the puts for the faults.\<close>

fun putLines ::
  "adapter \<Rightarrow> Faults \<Rightarrow> Key \<Rightarrow> nat \<Rightarrow> CasbinRule list \<Rightarrow> Transaction \<Rightarrow>
   error option \<times> Transaction" where
  "putLines a faults ancestor i [] tx = (None, tx)"
| "putLines a faults ancestor i (line # lines) tx =
     (case Transaction_Put (Transaction_Put_fault faults i)
             (SavePolicy_key a ancestor line) line tx of
        (Some err, tx') \<Rightarrow> (Some err, tx')
      | (None, tx') \<Rightarrow> putLines a faults ancestor (Suc i) lines tx')"

text \<open>
  The function \<open>SavePolicy\<close> runs in the transaction: the delete of the fetched keys,
  then the puts; the first error ends it.
\<close>

definition SavePolicy_transaction ::
  "adapter \<Rightarrow> Faults \<Rightarrow> Key list \<Rightarrow> Key \<Rightarrow> CasbinRule list \<Rightarrow> Transaction \<Rightarrow>
   error option \<times> Transaction" where
  "SavePolicy_transaction a faults keys ancestor lines tx =
     (case Transaction_DeleteMulti (Transaction_DeleteMulti_fault faults) keys tx of
        (Some err, tx') \<Rightarrow> (Some err, tx')
      | (None, tx') \<Rightarrow> putLines a faults ancestor 0 lines tx')"

definition SavePolicy ::
  "adapter \<Rightarrow> Faults \<Rightarrow> Model \<Rightarrow> Datastore \<Rightarrow> error option \<times> Datastore" where
  "SavePolicy a faults model db =
     (case GetAll (GetAll_fault faults) (Query_KeysOnly (newQuery a)) db of
        Inl err \<Rightarrow> (Some err, db)
      | Inr (keys, rules) \<Rightarrow>
          (let lines = SavePolicy_lines model;
               ancestor = pseudoRootKey a
           in RunInTransaction (Commit_fault faults)
                (SavePolicy_transaction a faults keys ancestor lines) db))"

definition AddPolicy ::
  "adapter \<Rightarrow> Faults \<Rightarrow> string \<Rightarrow> string \<Rightarrow> string list \<Rightarrow> Datastore \<Rightarrow>
   error option \<times> Datastore" where
  "AddPolicy a faults sec ptype rule db =
     (let line = savePolicyLine ptype rule;
          key = AddPolicy_key a line
      in Put (Put_fault faults) key line db)"

definition RemovePolicy ::
  "adapter \<Rightarrow> Faults \<Rightarrow> string \<Rightarrow> string \<Rightarrow> string list \<Rightarrow> Datastore \<Rightarrow>
   error option \<times> Datastore" where
  "RemovePolicy a faults sec ptype rule db =
     (let line = savePolicyLine ptype rule;
          key = RemovePolicy_key a line
      in Delete (Delete_fault faults) key db)"

text \<open>
  Go's \<open>int\<close> has 64 bits: \<open>int64\<close> is the value a sum or difference wraps to. An index
  expression panics outside the slice.
\<close>

definition int64 :: "int \<Rightarrow> int" where
  "int64 x = signed_take_bit 63 x"

definition index :: "'a list \<Rightarrow> int \<Rightarrow> panic + 'a" where
  "index xs i = (if 0 \<le> i \<and> i < int (length xs) then Inr (xs ! nat i) else Inl IndexOutOfRange)"

text \<open>
  The selector of \<open>RemoveFilteredPolicy\<close>, a Go map from property names to values, kept
  as an association list under the map's update. \<open>selectSlot p name\<close> is the source's
  block for slot \<open>p\<close>, which the source writes out six times.
\<close>

type_synonym selector = "(string \<times> string) list"

definition selectSlot ::
  "int \<Rightarrow> string \<Rightarrow> int \<Rightarrow> string list \<Rightarrow> selector \<Rightarrow> panic + selector" where
  "selectSlot p name fieldIndex fieldValues sel =
     (if fieldIndex \<le> p \<and> p < int64 (fieldIndex + int (length fieldValues)) then
        (case index fieldValues (int64 (p - fieldIndex)) of
           Inl e \<Rightarrow> Inl e
         | Inr v \<Rightarrow> if v \<noteq> [] then Inr (AList.update name v sel) else Inr sel)
      else Inr sel)"

definition buildSelector :: "string \<Rightarrow> int \<Rightarrow> string list \<Rightarrow> panic + selector" where
  "buildSelector ptype fieldIndex fieldValues =
     (case selectSlot 0 ''v0'' fieldIndex fieldValues (AList.update ''ptype'' ptype []) of
        Inl e \<Rightarrow> Inl e
      | Inr s0 \<Rightarrow>
     (case selectSlot 1 ''v1'' fieldIndex fieldValues s0 of
        Inl e \<Rightarrow> Inl e
      | Inr s1 \<Rightarrow>
     (case selectSlot 2 ''v2'' fieldIndex fieldValues s1 of
        Inl e \<Rightarrow> Inl e
      | Inr s2 \<Rightarrow>
     (case selectSlot 3 ''v3'' fieldIndex fieldValues s2 of
        Inl e \<Rightarrow> Inl e
      | Inr s3 \<Rightarrow>
     (case selectSlot 4 ''v4'' fieldIndex fieldValues s3 of
        Inl e \<Rightarrow> Inl e
      | Inr s4 \<Rightarrow> selectSlot 5 ''v5'' fieldIndex fieldValues s4)))))"

text \<open>
  What the mapping is to hold for slot position \<open>p\<close>: the value at \<open>p - fieldIndex\<close> if
  the position is covered by the values and the value is not empty, no entry otherwise.
  \<open>withFilter\<close> adds such an entry, if there is one, to a selector.
\<close>

definition slotFilter :: "int \<Rightarrow> string list \<Rightarrow> int \<Rightarrow> string option" where
  "slotFilter fieldIndex values p =
     (if fieldIndex \<le> p \<and> p < fieldIndex + int (length values) \<and>
         values ! nat (p - fieldIndex) \<noteq> []
      then Some (values ! nat (p - fieldIndex)) else None)"

definition withFilter :: "string \<Rightarrow> string option \<Rightarrow> selector \<Rightarrow> selector" where
  "withFilter name f sel = (case f of None \<Rightarrow> sel | Some v \<Rightarrow> AList.update name v sel)"

text \<open>
  \<open>RemoveFilteredPolicy\<close>: the selector, one equality filter per entry of it (the
  filters are a conjunction, so the order in which the source ranges over its map does
  not matter), the fetch, and the delete of the fetched keys.
\<close>

definition filteredQuery :: "adapter \<Rightarrow> selector \<Rightarrow> Query" where
  "filteredQuery a sel = fold (\<lambda>(k, v) q. Query_Filter k Equal v q) sel (newQuery a)"

definition RemoveFilteredPolicy ::
  "adapter \<Rightarrow> Faults \<Rightarrow> string \<Rightarrow> string \<Rightarrow> int \<Rightarrow> string list \<Rightarrow> Datastore \<Rightarrow>
   panic + (error option \<times> Datastore)" where
  "RemoveFilteredPolicy a faults sec ptype fieldIndex fieldValues db =
     (case buildSelector ptype fieldIndex fieldValues of
        Inl p \<Rightarrow> Inl p
      | Inr sel \<Rightarrow>
          (let query = filteredQuery a sel in
           case GetAll (GetAll_fault faults) query db of
             Inl err \<Rightarrow>
               (if err = ErrNoSuchEntity then Inr (None, db) else Inr (Some err, db))
           | Inr (keys, rules) \<Rightarrow> Inr (DeleteMulti (DeleteMulti_fault faults) keys db)))"

section \<open>An example partition\<close>

text \<open>
  The adapter of the repository's tests (kind \<open>casbin_test\<close>, namespace \<open>unittest\<close>), a
  model with the sections \<open>p\<close> and \<open>g\<close>, and a store that holds one rule of type \<open>p\<close>
  and one record with an empty type tag, stored under a generated id.
\<close>

definition unittest :: adapter where
  "unittest =
     NewAdapterWithConfig
       \<lparr>Kind = ''casbin_test'', Namespace = ''unittest'', Debug = False,
        LoadSaveFilterDeadline = 0, AddRemoveDeadline = 0\<rparr>"

definition model1 :: Model where
  "model1 = [(''p'', [(''p'', \<lparr>Policy = []\<rparr>)]), (''g'', [(''g'', \<lparr>Policy = []\<rparr>)])]"

definition store1 :: Datastore where
  "store1 =
     \<lparr>entities =
        [(Key ''casbin_test'' 0 ''p,alice,data1,read''
            (Some (Key ''casbin_test'' 1 [] None ''unittest'')) ''unittest'',
          savePolicyLine ''p'' [''alice'', ''data1'', ''read'']),
         (Key ''casbin_test'' 1001 []
            (Some (Key ''casbin_test'' 1 [] None ''unittest'')) ''unittest'',
          savePolicyLine [] [''bob'', ''data2'', ''write''])],
      nextID = 1002\<rparr>"

text \<open>
  A model with two rules of type \<open>p\<close>, and the faults of a save whose second put fails.
\<close>

definition model2 :: Model where
  "model2 =
     [(''p'', [(''p'', \<lparr>Policy = [[''alice'', ''data1'', ''read''], [''bob'', ''data2'', ''write'']]\<rparr>)]),
      (''g'', [(''g'', \<lparr>Policy = []\<rparr>)])]"

definition secondPutFails :: Faults where
  "secondPutFails =
     noFaults\<lparr>Transaction_Put_fault :=
       (\<lambda>i. if i = 1 then Some (ErrOther ''deadline exceeded'') else None)\<rparr>"

definition emptyStore :: Datastore where
  "emptyStore = \<lparr>entities = [], nextID = 1000\<rparr>"

section \<open>Properties of the codec\<close>

lemma TrimSpace_Nil: "TrimSpace [] = []"
  by (simp add: TrimSpace_def TrimLeft.simps TrimRight.simps leadingSpace_def
      trailingSpace_def whiteSpace_def)

lemma appendOrTerminate_empty:
  "TrimSpace x = [] \<Longrightarrow> appendOrTerminate res x = (res, False)"
  by (simp add: appendOrTerminate_def)

lemma appendOrTerminate_first:
  "TrimSpace x \<noteq> [] \<Longrightarrow> appendOrTerminate [] x = (TrimSpace x, True)"
  by (simp add: appendOrTerminate_def)

lemma appendOrTerminate_next:
  "TrimSpace x \<noteq> [] \<Longrightarrow> res \<noteq> [] \<Longrightarrow>
   appendOrTerminate res x = (res @ '','' @ TrimSpace x, True)"
  by (simp add: appendOrTerminate_def)

lemma String_tokens: "CasbinRule_String cr = commaJoin (identityTokens cr)"
  unfolding CasbinRule_String_def identityTokens_def ruleFields_def
  by (cases "TrimSpace (PType cr) = []"; cases "TrimSpace (V0 cr) = []";
      cases "TrimSpace (V1 cr) = []"; cases "TrimSpace (V2 cr) = []";
      cases "TrimSpace (V3 cr) = []"; cases "TrimSpace (V4 cr) = []";
      cases "TrimSpace (V5 cr) = []";
      simp add: appendOrTerminate_empty appendOrTerminate_first appendOrTerminate_next)

lemma tokens_takeWhile: "loadPolicyLine_tokens line = takeWhile (\<lambda>v. v \<noteq> []) (slots line)"
  by (simp add: loadPolicyLine_tokens_def slots_def)

lemma TrimSpace_a: "TrimSpace ''a'' = ''a''"
  by (simp add: TrimSpace_def TrimLeft.simps TrimRight.simps leadingSpace_def
      trailingSpace_def whiteSpace_def)

lemma TrimSpace_p: "TrimSpace ''p'' = ''p''"
  by (simp add: TrimSpace_def TrimLeft.simps TrimRight.simps leadingSpace_def
      trailingSpace_def whiteSpace_def)

lemma TrimSpace_blank: "TrimSpace '' '' = []"
  by (simp add: TrimSpace_def TrimLeft.simps TrimRight.simps leadingSpace_def
      trailingSpace_def whiteSpace_def)

lemma String_blank_type: "TrimSpace (PType cr) = [] \<Longrightarrow> CasbinRule_String cr = []"
  by (simp add: String_tokens identityTokens_def ruleFields_def)

subsection \<open>The identity string\<close>

text \<open>
  C4. The identity of a record is the comma-separated join of the trimmed type tag and
  the trimmed slots 0 to 5, in this order, cut at the first value that is empty after
  trimming: every later value, empty or not, is left out. The type tag goes through the
  same step as the slots. In particular the record encoded from the fields
  \<open>["a", "", "c"]\<close> has the identity of the one encoded from \<open>["a"]\<close>: under a type
  that is not blank, the trimmed type followed by \<open>",a"\<close>.
\<close>

theorem identity_truncated_join:
  "CasbinRule_String cr =
     commaJoin (takeWhile (\<lambda>t. t \<noteq> [])
       (map TrimSpace [PType cr, V0 cr, V1 cr, V2 cr, V3 cr, V4 cr, V5 cr]))
   \<and> CasbinRule_String (savePolicyLine ptype [''a'', [], ''c'']) =
       CasbinRule_String (savePolicyLine ptype [''a''])
   \<and> (TrimSpace ptype \<noteq> [] \<longrightarrow>
        CasbinRule_String (savePolicyLine ptype [''a'', [], ''c'']) = TrimSpace ptype @ '',a'')"
proof (intro conjI)
  show "CasbinRule_String cr =
     commaJoin (takeWhile (\<lambda>t. t \<noteq> [])
       (map TrimSpace [PType cr, V0 cr, V1 cr, V2 cr, V3 cr, V4 cr, V5 cr]))"
    using String_tokens [of cr] by (simp add: identityTokens_def ruleFields_def)
next
  show "CasbinRule_String (savePolicyLine ptype [''a'', [], ''c'']) =
       CasbinRule_String (savePolicyLine ptype [''a''])"
    by (simp add: String_tokens identityTokens_def ruleFields_def savePolicyLine_def
        TrimSpace_Nil TrimSpace_a)
next
  show "TrimSpace ptype \<noteq> [] \<longrightarrow>
        CasbinRule_String (savePolicyLine ptype [''a'', [], ''c'']) = TrimSpace ptype @ '',a''"
    by (simp add: String_tokens identityTokens_def ruleFields_def savePolicyLine_def
        TrimSpace_Nil TrimSpace_a)
qed

theorem identity_truncated_join_witness:
  "TrimSpace ''p'' \<noteq> [] \<and>
   CasbinRule_String (savePolicyLine ''p'' [''a'', [], ''c'']) = ''p,a''"
proof -
  have nonblank: "TrimSpace ''p'' \<noteq> []"
    by (simp add: TrimSpace_p)
  then have "CasbinRule_String (savePolicyLine ''p'' [''a'', [], ''c'']) = TrimSpace ''p'' @ '',a''"
    using identity_truncated_join [where ptype = "''p''"] by blast
  with nonblank show ?thesis
    by (simp add: TrimSpace_p)
qed

subsection \<open>Decoded fields and the identity\<close>

lemma takeWhile_trimmed:
  "\<forall>v \<in> set (takeWhile (\<lambda>v. v \<noteq> []) xs). TrimSpace v = v \<Longrightarrow>
   takeWhile (\<lambda>t. t \<noteq> []) (map TrimSpace xs) = takeWhile (\<lambda>v. v \<noteq> []) xs"
  by (induction xs) (auto simp: TrimSpace_Nil)

lemma identitySlots_takeWhile:
  "TrimSpace (PType cr) \<noteq> [] \<Longrightarrow>
   identitySlots cr = takeWhile (\<lambda>t. t \<noteq> []) (map TrimSpace (slots cr))"
  by (simp add: identitySlots_def identityTokens_def ruleFields_def slots_def)

text \<open>
  C2, as the code has it. The decoder stops at the first slot that is the empty string;
  the identity stops at the first slot that is empty after trimming, and holds the
  trimmed values. The two agree on a record whose type tag is not blank and whose
  decoded fields have no leading or trailing white space: there the decoded field list
  is the list of slot values in the identity.
\<close>

theorem decoded_fields_are_identity_slots:
  assumes "TrimSpace (PType cr) \<noteq> []"
    and "\<forall>v \<in> set (loadPolicyLine_tokens cr). TrimSpace v = v"
  shows "loadPolicyLine_tokens cr = identitySlots cr"
  using assms by (simp add: identitySlots_takeWhile tokens_takeWhile takeWhile_trimmed)

theorem decoded_fields_are_identity_slots_witness:
  "TrimSpace (PType (savePolicyLine ''p'' [''a''])) \<noteq> [] \<and>
   TrimSpace ''a'' = ''a'' \<and>
   loadPolicyLine_tokens (savePolicyLine ''p'' [''a'']) = [''a''] \<and>
   identitySlots (savePolicyLine ''p'' [''a'']) = [''a'']"
proof -
  have tag: "TrimSpace (PType (savePolicyLine ''p'' [''a''])) \<noteq> []"
    by (simp add: savePolicyLine_def TrimSpace_p)
  have toks: "loadPolicyLine_tokens (savePolicyLine ''p'' [''a'']) = [''a'']"
    by (simp add: savePolicyLine_def loadPolicyLine_tokens_def)
  have trimmed: "\<forall>v \<in> set (loadPolicyLine_tokens (savePolicyLine ''p'' [''a''])). TrimSpace v = v"
    by (simp add: toks TrimSpace_a)
  have "identitySlots (savePolicyLine ''p'' [''a'']) = [''a'']"
    using decoded_fields_are_identity_slots [OF tag trimmed] toks by simp
  with tag toks show ?thesis by (simp add: TrimSpace_a)
qed

text \<open>
  C2 as stated fails on a record whose slot 0 is one space: the decoder returns the
  field \<open>" "\<close>, the identity is \<open>"p"\<close> and holds no slot value.
\<close>

theorem decoded_fields_counterexample:
  "loadPolicyLine_tokens
     \<lparr>PType = ''p'', V0 = '' '', V1 = [], V2 = [], V3 = [], V4 = [], V5 = []\<rparr> = ['' '']
   \<and> identitySlots
     \<lparr>PType = ''p'', V0 = '' '', V1 = [], V2 = [], V3 = [], V4 = [], V5 = []\<rparr> = []
   \<and> CasbinRule_String
     \<lparr>PType = ''p'', V0 = '' '', V1 = [], V2 = [], V3 = [], V4 = [], V5 = []\<rparr> = ''p''"
  by (simp add: loadPolicyLine_tokens_def identitySlots_def String_tokens identityTokens_def
      ruleFields_def TrimSpace_p TrimSpace_blank)

subsection \<open>Round trip\<close>

lemma slots_savePolicyLine:
  "length rule \<le> 6 \<Longrightarrow>
   slots (savePolicyLine ptype rule) = rule @ replicate (6 - length rule) []"
  by (auto simp: savePolicyLine_def slots_def le_Suc_eq numeral_eq_Suc length_Suc_conv)

lemma tokens_savePolicyLine:
  assumes "length rule \<le> 6" and "\<forall>f \<in> set rule. f \<noteq> []"
  shows "loadPolicyLine_tokens (savePolicyLine ptype rule) = rule"
proof -
  have "takeWhile (\<lambda>v. v \<noteq> []) (rule @ replicate (6 - length rule) []) = rule"
    using assms(2) by (cases "6 - length rule") simp_all
  with assms(1) show ?thesis
    by (simp add: tokens_takeWhile slots_savePolicyLine)
qed

text \<open>
  C5, as the code has it. For a rule type that is not the empty string and a list of 0
  to 6 non-empty fields, decoding the encoded record into a model that holds an
  assertion for the type (under the section named by the type's first byte) appends
  exactly the field list to the policy of that type: the type and the fields come back
  as they went in.
\<close>

theorem decode_encode_roundtrip:
  assumes "ptype \<noteq> []"
    and "length rule \<le> 6"
    and "\<forall>f \<in> set rule. f \<noteq> []"
    and "map_of model (take 1 ptype) = Some am"
    and "map_of am ptype = Some ast"
  shows "PType (savePolicyLine ptype rule) = ptype \<and>
         loadPolicyLine (savePolicyLine ptype rule) model =
           Inr (AList.update (take 1 ptype)
                 (AList.update ptype (ast\<lparr>Policy := Policy ast @ [rule]\<rparr>) am) model)"
proof -
  have tag: "PType (savePolicyLine ptype rule) = ptype"
    by (simp add: savePolicyLine_def)
  have toks: "loadPolicyLine_tokens (savePolicyLine ptype rule) = rule"
    using assms(2,3) by (rule tokens_savePolicyLine)
  from assms(1) have "\<not> length ptype < 1"
    by (cases ptype) simp_all
  with tag toks assms(4,5) show ?thesis
    by (simp add: loadPolicyLine_def Let_def)
qed

theorem decode_encode_roundtrip_witness:
  "loadPolicyLine (savePolicyLine ''p'' [''alice'', ''data1'', ''read''])
     [(''p'', [(''p'', \<lparr>Policy = []\<rparr>)])] =
   Inr [(''p'', [(''p'', \<lparr>Policy = [[''alice'', ''data1'', ''read'']]\<rparr>)])]"
proof -
  have a1: "''p'' \<noteq> []" by simp
  have a2: "length [''alice'', ''data1'', ''read''] \<le> 6" by simp
  have a3: "\<forall>f \<in> set [''alice'', ''data1'', ''read'']. f \<noteq> []" by simp
  have a4: "map_of [(''p'', [(''p'', \<lparr>Policy = []\<rparr>)])] (take 1 ''p'') =
              Some [(''p'', \<lparr>Policy = []\<rparr>)]" by simp
  have a5: "map_of [(''p'', \<lparr>Policy = []\<rparr>)] ''p'' = Some \<lparr>Policy = []\<rparr>" by simp
  show ?thesis
    using decode_encode_roundtrip [OF a1 a2 a3 a4 a5] by simp
qed

text \<open>
  C5 as stated fails for the empty rule type: \<open>key[:1]\<close> panics, also when the model
  holds an assertion under the empty section and type.
\<close>

theorem decode_encode_roundtrip_counterexample:
  "loadPolicyLine (savePolicyLine [] [])
     [([], [([], \<lparr>Policy = []\<rparr>)])] = Inl SliceBoundsOutOfRange"
  by (simp add: loadPolicyLine_def savePolicyLine_def)

section \<open>Properties of the filter mapping\<close>

lemma int64_id: "- (2 ^ 63) \<le> x \<Longrightarrow> x < 2 ^ 63 \<Longrightarrow> int64 x = x"
  unfolding int64_def by (rule signed_take_bit_int_eq_self)

lemma int64_wrapped_negative:
  assumes "2 ^ 63 \<le> x" and "x < 2 ^ 64"
  shows "int64 x < 0"
proof -
  have "signed_take_bit 63 x \<le> x - 2 ^ Suc 63"
    using assms(1) by (rule signed_take_bit_int_less_eq)
  moreover have "x - 2 ^ Suc 63 < 0"
    using assms(2) by simp
  ultimately show ?thesis
    unfolding int64_def by linarith
qed

lemma guard_in_bounds:
  assumes fi: "- (2 ^ 63) \<le> fieldIndex" "fieldIndex < 2 ^ 63"
    and len: "int (length fieldValues) < 2 ^ 63"
    and p: "0 \<le> p" "p \<le> 5"
    and guard: "fieldIndex \<le> p" "p < int64 (fieldIndex + int (length fieldValues))"
  shows "int64 (fieldIndex + int (length fieldValues)) = fieldIndex + int (length fieldValues)"
    and "int64 (p - fieldIndex) = p - fieldIndex"
    and "0 \<le> p - fieldIndex" and "p - fieldIndex < int (length fieldValues)"
proof -
  have sum_lt: "fieldIndex + int (length fieldValues) < 2 ^ 64"
    using fi(2) len by simp
  have no_wrap: "fieldIndex + int (length fieldValues) < 2 ^ 63"
  proof (rule ccontr)
    assume "\<not> fieldIndex + int (length fieldValues) < 2 ^ 63"
    then have "int64 (fieldIndex + int (length fieldValues)) < 0"
      using sum_lt by (intro int64_wrapped_negative) simp_all
    with guard(2) p(1) show False by simp
  qed
  have lower: "- (2 ^ 63) \<le> fieldIndex + int (length fieldValues)"
    using fi(1) by simp
  show sum_id: "int64 (fieldIndex + int (length fieldValues)) = fieldIndex + int (length fieldValues)"
    using lower no_wrap by (rule int64_id)
  show nonneg: "0 \<le> p - fieldIndex"
    using guard(1) by simp
  show below: "p - fieldIndex < int (length fieldValues)"
    using guard(2) sum_id by simp
  show "int64 (p - fieldIndex) = p - fieldIndex"
    using nonneg below len by (intro int64_id) simp_all
qed

lemma selectSlot_no_panic:
  assumes "- (2 ^ 63) \<le> fieldIndex" "fieldIndex < 2 ^ 63"
    and "int (length fieldValues) < 2 ^ 63"
    and "0 \<le> p" "p \<le> 5"
  shows "\<exists>sel'. selectSlot p name fieldIndex fieldValues sel = Inr sel'"
proof (cases "fieldIndex \<le> p \<and> p < int64 (fieldIndex + int (length fieldValues))")
  case True
  then have g: "fieldIndex \<le> p" "p < int64 (fieldIndex + int (length fieldValues))"
    by simp_all
  note b = guard_in_bounds [OF assms g]
  show ?thesis
    using True b(2,3,4) by (simp add: selectSlot_def index_def)
next
  case False
  then show ?thesis by (auto simp add: selectSlot_def)
qed

lemma selectSlot_filter:
  assumes fi: "- (2 ^ 63) \<le> fieldIndex" "fieldIndex < 2 ^ 63"
    and len: "int (length fieldValues) + 5 < 2 ^ 63"
    and p: "0 \<le> p" "p \<le> 5"
  shows "selectSlot p name fieldIndex fieldValues sel =
           Inr (withFilter name (slotFilter fieldIndex fieldValues p) sel)"
proof (cases "fieldIndex \<le> p \<and> p < fieldIndex + int (length fieldValues)")
  case True
  with fi p len have s: "int64 (fieldIndex + int (length fieldValues)) =
      fieldIndex + int (length fieldValues)"
    by (intro int64_id) simp_all
  from True len have d: "int64 (p - fieldIndex) = p - fieldIndex"
    by (intro int64_id) simp_all
  from True s d show ?thesis
    by (simp add: selectSlot_def index_def slotFilter_def withFilter_def)
next
  case False
  have "\<not> (fieldIndex \<le> p \<and> p < int64 (fieldIndex + int (length fieldValues)))"
  proof (cases "fieldIndex \<le> p")
    case True
    with fi p len have "int64 (fieldIndex + int (length fieldValues)) =
        fieldIndex + int (length fieldValues)"
      by (intro int64_id) simp_all
    with False show ?thesis by simp
  next
    case False
    then show ?thesis by simp
  qed
  with False show ?thesis
    by (auto simp add: selectSlot_def slotFilter_def withFilter_def)
qed

lemma map_of_withFilter:
  "map_of (withFilter name f sel) k = (if k = name \<and> f \<noteq> None then f else map_of sel k)"
  by (cases f) (simp_all add: withFilter_def update_conv')

lemma fst_set_withFilter:
  "fst ` set sel \<subseteq> A \<Longrightarrow> name \<in> A \<Longrightarrow> fst ` set (withFilter name f sel) \<subseteq> A"
  by (cases f) (auto simp: withFilter_def dom_update)


lemma buildSelector_filters:
  assumes fi: "- (2 ^ 63) \<le> fieldIndex" "fieldIndex < 2 ^ 63"
    and len: "int (length fieldValues) + 5 < 2 ^ 63"
  shows "buildSelector ptype fieldIndex fieldValues =
    Inr (withFilter ''v5'' (slotFilter fieldIndex fieldValues 5)
        (withFilter ''v4'' (slotFilter fieldIndex fieldValues 4)
        (withFilter ''v3'' (slotFilter fieldIndex fieldValues 3)
        (withFilter ''v2'' (slotFilter fieldIndex fieldValues 2)
        (withFilter ''v1'' (slotFilter fieldIndex fieldValues 1)
        (withFilter ''v0'' (slotFilter fieldIndex fieldValues 0)
           [(''ptype'', ptype)]))))))"
  by (simp add: buildSelector_def selectSlot_filter [OF fi len])

text \<open>
  C6. For a rule type, a field index in the range of Go's \<open>int\<close> and a list of values
  (of a length a Go slice can have: the length plus 5 does not overflow), the mapping
  \<open>RemoveFilteredPolicy\<close> builds always holds \<open>ptype = ruleType\<close>, and for each slot
  position \<open>p\<close> from 0 to 5 it holds \<open>slot p = values[p - fieldIndex]\<close> if and only if
  \<open>fieldIndex \<le> p < fieldIndex + len(values)\<close> and that value is not empty; it has no
  other entry.
\<close>

theorem selector_filters:
  assumes "- (2 ^ 63) \<le> fieldIndex" and "fieldIndex < 2 ^ 63"
    and "int (length fieldValues) + 5 < 2 ^ 63"
  shows "\<exists>sel. buildSelector ptype fieldIndex fieldValues = Inr sel \<and>
           map_of sel ''ptype'' = Some ptype \<and>
           map_of sel ''v0'' = slotFilter fieldIndex fieldValues 0 \<and>
           map_of sel ''v1'' = slotFilter fieldIndex fieldValues 1 \<and>
           map_of sel ''v2'' = slotFilter fieldIndex fieldValues 2 \<and>
           map_of sel ''v3'' = slotFilter fieldIndex fieldValues 3 \<and>
           map_of sel ''v4'' = slotFilter fieldIndex fieldValues 4 \<and>
           map_of sel ''v5'' = slotFilter fieldIndex fieldValues 5 \<and>
           fst ` set sel \<subseteq> {''ptype'', ''v0'', ''v1'', ''v2'', ''v3'', ''v4'', ''v5''}"
proof -
  let ?s0 = "withFilter ''v0'' (slotFilter fieldIndex fieldValues 0) [(''ptype'', ptype)]"
  let ?s1 = "withFilter ''v1'' (slotFilter fieldIndex fieldValues 1) ?s0"
  let ?s2 = "withFilter ''v2'' (slotFilter fieldIndex fieldValues 2) ?s1"
  let ?s3 = "withFilter ''v3'' (slotFilter fieldIndex fieldValues 3) ?s2"
  let ?s4 = "withFilter ''v4'' (slotFilter fieldIndex fieldValues 4) ?s3"
  let ?s5 = "withFilter ''v5'' (slotFilter fieldIndex fieldValues 5) ?s4"
  have built: "buildSelector ptype fieldIndex fieldValues = Inr ?s5"
    using assms by (rule buildSelector_filters)
  have names: "fst ` set ?s5 \<subseteq> {''ptype'', ''v0'', ''v1'', ''v2'', ''v3'', ''v4'', ''v5''}"
    by (intro fst_set_withFilter) simp_all
  have "map_of ?s5 ''ptype'' = Some ptype"
    by (simp add: map_of_withFilter)
  moreover have "map_of ?s5 ''v0'' = slotFilter fieldIndex fieldValues 0"
    by (simp add: map_of_withFilter)
  moreover have "map_of ?s5 ''v1'' = slotFilter fieldIndex fieldValues 1"
    by (simp add: map_of_withFilter)
  moreover have "map_of ?s5 ''v2'' = slotFilter fieldIndex fieldValues 2"
    by (simp add: map_of_withFilter)
  moreover have "map_of ?s5 ''v3'' = slotFilter fieldIndex fieldValues 3"
    by (simp add: map_of_withFilter)
  moreover have "map_of ?s5 ''v4'' = slotFilter fieldIndex fieldValues 4"
    by (simp add: map_of_withFilter)
  moreover have "map_of ?s5 ''v5'' = slotFilter fieldIndex fieldValues 5"
    by (simp add: map_of_withFilter)
  ultimately show ?thesis
    using built names by blast
qed

lemma buildSelector_no_panic:
  assumes fi: "- (2 ^ 63) \<le> fieldIndex" "fieldIndex < 2 ^ 63"
    and len: "int (length fieldValues) < 2 ^ 63"
  shows "\<exists>sel. buildSelector ptype fieldIndex fieldValues = Inr sel"
proof -
  note step = selectSlot_no_panic [OF fi len]
  obtain s0 where s0: "selectSlot 0 ''v0'' fieldIndex fieldValues [(''ptype'', ptype)] = Inr s0"
    using step [of 0] by auto
  obtain s1 where s1: "selectSlot 1 ''v1'' fieldIndex fieldValues s0 = Inr s1"
    using step [of 1] by auto
  obtain s2 where s2: "selectSlot 2 ''v2'' fieldIndex fieldValues s1 = Inr s2"
    using step [of 2] by auto
  obtain s3 where s3: "selectSlot 3 ''v3'' fieldIndex fieldValues s2 = Inr s3"
    using step [of 3] by auto
  obtain s4 where s4: "selectSlot 4 ''v4'' fieldIndex fieldValues s3 = Inr s4"
    using step [of 4] by auto
  obtain s5 where s5: "selectSlot 5 ''v5'' fieldIndex fieldValues s4 = Inr s5"
    using step [of 5] by auto
  show ?thesis
    unfolding buildSelector_def by (simp add: s0 s1 s2 s3 s4 s5)
qed

lemma update_names: "fst ` set sel \<subseteq> A \<Longrightarrow> name \<in> A \<Longrightarrow> fst ` set (AList.update name v sel) \<subseteq> A"
  by (simp add: dom_update)

lemma selectSlot_names:
  assumes "selectSlot p name fieldIndex fieldValues sel = Inr sel'"
    and "fst ` set sel \<subseteq> A" and "name \<in> A"
  shows "fst ` set sel' \<subseteq> A"
proof -
  from assms(1) have "sel' = sel \<or> (\<exists>v. sel' = AList.update name v sel)"
    by (auto simp: selectSlot_def split: if_splits sum.splits)
  with assms(2,3) show ?thesis
    using update_names [of sel A name] by blast
qed

lemma buildSelector_names:
  assumes "buildSelector ptype fieldIndex fieldValues = Inr sel"
  shows "fst ` set sel \<subseteq> {''ptype'', ''v0'', ''v1'', ''v2'', ''v3'', ''v4'', ''v5''}"
proof -
  let ?A = "{''ptype'', ''v0'', ''v1'', ''v2'', ''v3'', ''v4'', ''v5''}"
  have init: "fst ` set (AList.update ''ptype'' ptype []) \<subseteq> ?A" by simp
  show ?thesis
  proof (cases "selectSlot 0 ''v0'' fieldIndex fieldValues (AList.update ''ptype'' ptype [])")
    case (Inl e)
    with assms show ?thesis by (simp add: buildSelector_def)
  next
    case s0: (Inr s0)
    from selectSlot_names [OF s0 init] have n0: "fst ` set s0 \<subseteq> ?A" by simp
    show ?thesis
    proof (cases "selectSlot 1 ''v1'' fieldIndex fieldValues s0")
      case (Inl e)
      with assms s0 show ?thesis by (simp add: buildSelector_def)
    next
      case s1: (Inr s1)
      from selectSlot_names [OF s1 n0] have n1: "fst ` set s1 \<subseteq> ?A" by simp
      show ?thesis
      proof (cases "selectSlot 2 ''v2'' fieldIndex fieldValues s1")
        case (Inl e)
        with assms s0 s1 show ?thesis by (simp add: buildSelector_def)
      next
        case s2: (Inr s2)
        from selectSlot_names [OF s2 n1] have n2: "fst ` set s2 \<subseteq> ?A" by simp
        show ?thesis
        proof (cases "selectSlot 3 ''v3'' fieldIndex fieldValues s2")
          case (Inl e)
          with assms s0 s1 s2 show ?thesis by (simp add: buildSelector_def)
        next
          case s3: (Inr s3)
          from selectSlot_names [OF s3 n2] have n3: "fst ` set s3 \<subseteq> ?A" by simp
          show ?thesis
          proof (cases "selectSlot 4 ''v4'' fieldIndex fieldValues s3")
            case (Inl e)
            with assms s0 s1 s2 s3 show ?thesis by (simp add: buildSelector_def)
          next
            case s4: (Inr s4)
            from selectSlot_names [OF s4 n3] have n4: "fst ` set s4 \<subseteq> ?A" by simp
            from assms s0 s1 s2 s3 s4
            have s5: "selectSlot 5 ''v5'' fieldIndex fieldValues s4 = Inr sel"
              by (simp add: buildSelector_def)
            from selectSlot_names [OF s5 n4] show ?thesis by simp
          qed
        qed
      qed
    qed
  qed
qed

text \<open>
  C7. For every field index in the range of Go's \<open>int\<close>, negative ones too, and every
  list of values, also where \<open>fieldIndex + len(values)\<close> exceeds 6, building the mapping
  does not panic: whenever the guard of a slot position \<open>p\<close> from 0 to 5 holds, the
  index \<open>p - fieldIndex\<close> it reads is within the list; and no position outside 0 to 5
  is considered: the mapping has no entry but \<open>ptype\<close> and \<open>v0\<close> to \<open>v5\<close>.
\<close>

theorem selector_in_bounds:
  assumes "- (2 ^ 63) \<le> fieldIndex" and "fieldIndex < 2 ^ 63"
    and "int (length fieldValues) < 2 ^ 63"
  shows "(\<exists>sel. buildSelector ptype fieldIndex fieldValues = Inr sel \<and>
            fst ` set sel \<subseteq> {''ptype'', ''v0'', ''v1'', ''v2'', ''v3'', ''v4'', ''v5''}) \<and>
         (\<forall>p \<in> {0..5}. fieldIndex \<le> p \<and> p < int64 (fieldIndex + int (length fieldValues)) \<longrightarrow>
            0 \<le> int64 (p - fieldIndex) \<and> int64 (p - fieldIndex) < int (length fieldValues) \<and>
            index fieldValues (int64 (p - fieldIndex)) = Inr (fieldValues ! nat (p - fieldIndex)))"
proof
  show "\<exists>sel. buildSelector ptype fieldIndex fieldValues = Inr sel \<and>
            fst ` set sel \<subseteq> {''ptype'', ''v0'', ''v1'', ''v2'', ''v3'', ''v4'', ''v5''}"
  proof -
    obtain sel where sel: "buildSelector ptype fieldIndex fieldValues = Inr sel"
      using buildSelector_no_panic [OF assms] ..
    from sel buildSelector_names [OF sel] show ?thesis
      by (intro exI conjI)
  qed
next
  show "\<forall>p \<in> {0..5}. fieldIndex \<le> p \<and> p < int64 (fieldIndex + int (length fieldValues)) \<longrightarrow>
            0 \<le> int64 (p - fieldIndex) \<and> int64 (p - fieldIndex) < int (length fieldValues) \<and>
            index fieldValues (int64 (p - fieldIndex)) = Inr (fieldValues ! nat (p - fieldIndex))"
  proof (intro ballI impI)
    fix p :: int
    assume "p \<in> {0..5}"
      and g: "fieldIndex \<le> p \<and> p < int64 (fieldIndex + int (length fieldValues))"
    then have p: "0 \<le> p" "p \<le> 5" by simp_all
    from g have g1: "fieldIndex \<le> p" and g2: "p < int64 (fieldIndex + int (length fieldValues))"
      by simp_all
    note b = guard_in_bounds [OF assms p g1 g2]
    from b(2,3,4) show "0 \<le> int64 (p - fieldIndex) \<and>
        int64 (p - fieldIndex) < int (length fieldValues) \<and>
        index fieldValues (int64 (p - fieldIndex)) = Inr (fieldValues ! nat (p - fieldIndex))"
      by (simp add: index_def)
  qed
qed

theorem selector_filters_witness:
  "\<exists>sel. buildSelector ''p'' 1 [''data2_admin''] = Inr sel \<and>
         map_of sel ''ptype'' = Some ''p'' \<and>
         map_of sel ''v0'' = None \<and>
         map_of sel ''v1'' = Some ''data2_admin''"
proof -
  have a1: "- (2 ^ 63) \<le> (1::int)" by simp
  have a2: "(1::int) < 2 ^ 63" by simp
  have a3: "int (length [''data2_admin'']) + 5 < 2 ^ 63" by simp
  have "\<exists>sel. buildSelector ''p'' 1 [''data2_admin''] = Inr sel \<and>
         map_of sel ''ptype'' = Some ''p'' \<and>
         map_of sel ''v0'' = None \<and>
         map_of sel ''v1'' = Some ''data2_admin'' \<and>
         map_of sel ''v2'' = None \<and>
         map_of sel ''v3'' = None \<and>
         map_of sel ''v4'' = None \<and>
         map_of sel ''v5'' = None \<and>
         fst ` set sel \<subseteq> {''ptype'', ''v0'', ''v1'', ''v2'', ''v3'', ''v4'', ''v5''}"
    using selector_filters [OF a1 a2 a3, of "''p''"] by (simp add: slotFilter_def)
  then show ?thesis by blast
qed

text \<open>The two mappings of C6, computed.\<close>

lemma selector_from_position_1:
  "buildSelector ''p'' 1 [''data2_admin''] =
     Inr [(''ptype'', ''p''), (''v1'', ''data2_admin'')]"
  by (simp add: buildSelector_def selectSlot_def index_def int64_def)

lemma selector_with_wildcards:
  "buildSelector ''p'' 0 [''domain1'', [], [], ''read''] =
     Inr [(''ptype'', ''p''), (''v0'', ''domain1''), (''v3'', ''read'')]"
  by (simp add: buildSelector_def selectSlot_def index_def int64_def)

theorem selector_in_bounds_witness:
  "\<exists>sel. buildSelector ''p'' (- 2) [''x'', ''y'', ''z'', [], [], [], [], [], ''q''] = Inr sel"
proof -
  have a1: "- (2 ^ 63) \<le> (- 2::int)" by simp
  have a2: "(- 2::int) < 2 ^ 63" by simp
  have a3: "int (length [''x'', ''y'', ''z'', [], [], [], [], [], ''q'']) < 2 ^ 63" by simp
  show ?thesis
    using selector_in_bounds [OF a1 a2 a3, of "''p''"] by blast
qed

text \<open>A negative field index with more than six positions covered, and the least \<open>int\<close>.\<close>

lemma selector_negative_index:
  "buildSelector ''p'' (- 2) [''x'', ''y'', ''z'', [], [], [], [], [], ''q''] =
     Inr [(''ptype'', ''p''), (''v0'', ''z'')]"
  by (simp add: buildSelector_def selectSlot_def index_def int64_def)

lemma selector_least_index:
  "buildSelector ''p'' (- (2 ^ 63)) [''x''] = Inr [(''ptype'', ''p'')]"
  by (simp add: buildSelector_def selectSlot_def index_def int64_def)

section \<open>Properties of the keys\<close>

lemmas TrimSpace_eval =
  TrimSpace_def TrimLeft.simps TrimRight.simps leadingSpace_def trailingSpace_def whiteSpace_def

lemma AddPolicy_key_shape:
  "AddPolicy_key a line =
     Key (Kind (config a)) 0 (CasbinRule_String line) (Some (pseudoRootKey a))
       (Namespace (config a))"
  by (simp add: AddPolicy_key_def NameKey_def setNamespace_def)

lemma SavePolicy_key_shape:
  "SavePolicy_key a ancestor line =
     Key (Kind (config a)) 0 (CasbinRule_String line) (Some ancestor) (Namespace (config a))"
  by (simp add: SavePolicy_key_def NameKey_def setNamespace_def)

lemma RemovePolicy_key_shape:
  "RemovePolicy_key a line =
     Key (Kind (config a)) 0 (CasbinRule_String line) (Some (pseudoRootKey a)) []"
  by (simp add: RemovePolicy_key_def NameKey_def)

lemma pseudoRootKey_shape:
  "pseudoRootKey a = Key (Kind (config a)) 1 [] None (Namespace (config a))"
  by (simp add: pseudoRootKey_def IDKey_def setNamespace_def)

lemma String_alice:
  "CasbinRule_String (savePolicyLine ''p'' [''alice'', ''data1'', ''write'']) =
     ''p,alice,data1,write''"
  by (simp add: String_tokens identityTokens_def ruleFields_def savePolicyLine_def TrimSpace_eval)

lemma unittest_config:
  "Kind (config unittest) = ''casbin_test''" "Namespace (config unittest) = ''unittest''"
  by (simp_all add: unittest_def NewAdapterWithConfig_def TrimSpace_eval)

text \<open>
  C1. \<open>SavePolicy\<close> and \<open>AddPolicy\<close> derive, for every record and configuration, the key
  named by the record's identity, under the ancestor key, in the configured namespace
  (\<open>SavePolicy_key_shape\<close>, \<open>AddPolicy_key_shape\<close>). \<open>RemovePolicy\<close> does not assign the
  namespace (\<open>RemovePolicy_key_shape\<close>): under the namespace \<open>unittest\<close> its key for the
  rule \<open>alice, data1, write\<close> has the empty namespace, is not the key \<open>AddPolicy\<close> stored
  the rule under, and the delete leaves the rule in the store.
\<close>

theorem RemovePolicy_key_unscoped:
  "KeyNamespace (RemovePolicy_key unittest
      (savePolicyLine ''p'' [''alice'', ''data1'', ''write''])) = []
   \<and> KeyNamespace (AddPolicy_key unittest
      (savePolicyLine ''p'' [''alice'', ''data1'', ''write''])) = ''unittest''
   \<and> snd (RemovePolicy unittest noFaults ''p'' ''p'' [''alice'', ''data1'', ''write'']
        (snd (AddPolicy unittest noFaults ''p'' ''p'' [''alice'', ''data1'', ''write'']
           \<lparr>entities = [], nextID = 1000\<rparr>))) =
     \<lparr>entities =
        [(Key ''casbin_test'' 0 ''p,alice,data1,write''
            (Some (Key ''casbin_test'' 1 [] None ''unittest'')) ''unittest'',
          savePolicyLine ''p'' [''alice'', ''data1'', ''write''])],
      nextID = 1000\<rparr>"
  by (simp add: RemovePolicy_key_shape AddPolicy_key_shape unittest_config
      RemovePolicy_def AddPolicy_def Put_def Delete_def noFaults_def putEntity_def
      deleteEntity_def Incomplete_def pseudoRootKey_shape String_alice)


theorem RemovePolicy_key_unscoped_witness:
  "KeyNamespace (RemovePolicy_key unittest
      (savePolicyLine ''p'' [''alice'', ''data1'', ''write''])) \<noteq>
   KeyNamespace (AddPolicy_key unittest
      (savePolicyLine ''p'' [''alice'', ''data1'', ''write'']))"
  using RemovePolicy_key_unscoped by simp

section \<open>Properties of loading\<close>

lemma newQuery_shape:
  "newQuery a =
     \<lparr>q_kind = Kind (config a), q_namespace = Namespace (config a),
      q_filters = [(''ptype'', GreaterThan, [])],
      q_ancestor = Some (pseudoRootKey a), q_keysOnly = False\<rparr>"
  by (simp add: newQuery_def NewQuery_def Query_Namespace_def Query_Filter_def
      Query_Ancestor_def)

lemma matches_newQuery_ptype: "matches (newQuery a) (k, line) \<Longrightarrow> PType line \<noteq> []"
  by (auto simp: matches_def newQuery_shape filterHolds_def property_def)

lemma GetAll_newQuery_ptype:
  assumes "GetAll fault (newQuery a) db = Inr (keys, rules)"
  shows "\<forall>l \<in> set rules. PType l \<noteq> []"
proof -
  from assms have "rules = map snd (filter (matches (newQuery a)) (entities db))"
    by (auto simp: GetAll_def Let_def newQuery_shape split: option.splits)
  then show ?thesis
    by (auto dest: matches_newQuery_ptype)
qed

lemma loadPolicyLine_slice_panic:
  "loadPolicyLine line model = Inl SliceBoundsOutOfRange \<longleftrightarrow> PType line = []"
  by (cases "PType line") (auto simp: loadPolicyLine_def Let_def split: option.splits)

lemma loadPolicyLines_no_slice_panic:
  "\<forall>l \<in> set rules. PType l \<noteq> [] \<Longrightarrow> loadPolicyLines rules model \<noteq> Inl SliceBoundsOutOfRange"
proof (induction rules arbitrary: model)
  case Nil
  then show ?case by simp
next
  case (Cons l ls)
  then have "loadPolicyLine l model \<noteq> Inl SliceBoundsOutOfRange"
    by (simp add: loadPolicyLine_slice_panic)
  with Cons show ?case
    by (cases "loadPolicyLine l model") auto
qed

text \<open>
  C10. Decoding a record panics on the slice \<open>key[:1]\<close> exactly when its type tag is the
  empty string. Every record the query of \<open>LoadPolicy\<close> returns has a type tag that is
  not empty, because of the filter \<open>ptype > ""\<close>; so \<open>LoadPolicy\<close> never panics there.
\<close>

theorem LoadPolicy_type_tag_nonempty:
  "(loadPolicyLine line model = Inl SliceBoundsOutOfRange \<longleftrightarrow> PType line = []) \<and>
   (\<forall>keys rules. GetAll (GetAll_fault faults) (newQuery a) db = Inr (keys, rules) \<longrightarrow>
      (\<forall>l \<in> set rules. PType l \<noteq> [])) \<and>
   LoadPolicy a faults model db \<noteq> Inl SliceBoundsOutOfRange"
proof (intro conjI allI impI)
  show "loadPolicyLine line model = Inl SliceBoundsOutOfRange \<longleftrightarrow> PType line = []"
    by (rule loadPolicyLine_slice_panic)
next
  fix keys rules
  assume "GetAll (GetAll_fault faults) (newQuery a) db = Inr (keys, rules)"
  then show "\<forall>l \<in> set rules. PType l \<noteq> []"
    by (rule GetAll_newQuery_ptype)
next
  show "LoadPolicy a faults model db \<noteq> Inl SliceBoundsOutOfRange"
  proof (cases "GetAll (GetAll_fault faults) (newQuery a) db")
    case (Inl err)
    then show ?thesis by (simp add: LoadPolicy_def)
  next
    case (Inr r)
    obtain keys rules where r: "r = (keys, rules)" by (cases r)
    with Inr have "\<forall>l \<in> set rules. PType l \<noteq> []"
      by (auto dest: GetAll_newQuery_ptype)
    then have "loadPolicyLines rules model \<noteq> Inl SliceBoundsOutOfRange"
      by (rule loadPolicyLines_no_slice_panic)
    with Inr r show ?thesis
      by (cases "loadPolicyLines rules model") (auto simp: LoadPolicy_def)
  qed
qed

lemma LoadPolicy_example:
  "LoadPolicy unittest noFaults model1 store1 =
     Inr (None, [(''p'', [(''p'', \<lparr>Policy = [[''alice'', ''data1'', ''read'']]\<rparr>)]),
                 (''g'', [(''g'', \<lparr>Policy = []\<rparr>)])])"
  by (simp add: LoadPolicy_def GetAll_def noFaults_def newQuery_shape unittest_config
      store1_def model1_def matches_def filterHolds_def property_def pseudoRootKey_shape
      savePolicyLine_def loadPolicyLine_def loadPolicyLine_tokens_def Let_def)

theorem LoadPolicy_type_tag_nonempty_witness:
  "LoadPolicy unittest noFaults model1 store1 \<noteq> Inl SliceBoundsOutOfRange \<and>
   loadPolicyLine (savePolicyLine [] [''bob'', ''data2'', ''write'']) model1 =
     Inl SliceBoundsOutOfRange"
proof -
  have "loadPolicyLine (savePolicyLine [] [''bob'', ''data2'', ''write'']) model1 =
      Inl SliceBoundsOutOfRange"
    using LoadPolicy_type_tag_nonempty
      [where line = "savePolicyLine [] [''bob'', ''data2'', ''write'']" and model = model1]
    by (simp add: savePolicyLine_def)
  moreover have "LoadPolicy unittest noFaults model1 store1 \<noteq> Inl SliceBoundsOutOfRange"
    using LoadPolicy_type_tag_nonempty
      [where faults = noFaults and a = unittest and db = store1 and model = model1]
    by blast
  ultimately show ?thesis by simp
qed

section \<open>Properties of the filtered delete\<close>

lemma DeleteMulti_no_keys: "DeleteMulti fault [] db = (fault, db)"
  by (cases fault) (simp_all add: DeleteMulti_def)

lemma GetAll_no_match:
  assumes "\<forall>e \<in> set (entities db). \<not> matches q e"
  shows "GetAll None q db = Inr ([], [])"
proof -
  from assms have "filter (matches q) (entities db) = []"
    by (simp add: filter_empty_conv)
  then show ?thesis by (simp add: GetAll_def)
qed

text \<open>
  C8. With a field index and a value list as Go passes them, \<open>RemoveFilteredPolicy\<close>
  returns success and leaves the store as it was when the fetch raises the store's
  not-found error; and when the fetch succeeds and no stored record matches the
  filters, it deletes nothing and returns what the delete call of no keys returns:
  success, unless that call itself raises.
\<close>

theorem RemoveFilteredPolicy_no_match:
  assumes "- (2 ^ 63) \<le> fieldIndex" and "fieldIndex < 2 ^ 63"
    and "int (length fieldValues) < 2 ^ 63"
  shows "(GetAll_fault faults = Some ErrNoSuchEntity \<longrightarrow>
            RemoveFilteredPolicy a faults sec ptype fieldIndex fieldValues db = Inr (None, db)) \<and>
         (GetAll_fault faults = None \<and>
          (\<forall>sel. buildSelector ptype fieldIndex fieldValues = Inr sel \<longrightarrow>
             (\<forall>e \<in> set (entities db). \<not> matches (filteredQuery a sel) e)) \<longrightarrow>
            RemoveFilteredPolicy a faults sec ptype fieldIndex fieldValues db =
              Inr (DeleteMulti_fault faults, db))"
proof -
  obtain sel where sel: "buildSelector ptype fieldIndex fieldValues = Inr sel"
    using buildSelector_no_panic [OF assms] by blast
  have "GetAll_fault faults = Some ErrNoSuchEntity \<Longrightarrow>
      RemoveFilteredPolicy a faults sec ptype fieldIndex fieldValues db = Inr (None, db)"
    by (simp add: RemoveFilteredPolicy_def sel GetAll_def)
  moreover have "RemoveFilteredPolicy a faults sec ptype fieldIndex fieldValues db =
        Inr (DeleteMulti_fault faults, db)"
    if "GetAll_fault faults = None"
      and "\<forall>e \<in> set (entities db). \<not> matches (filteredQuery a sel) e"
    using that by (simp add: RemoveFilteredPolicy_def sel GetAll_no_match DeleteMulti_no_keys)
  ultimately show ?thesis
    using sel by blast
qed

lemma RemoveFilteredPolicy_other_error:
  assumes "buildSelector ptype fieldIndex fieldValues = Inr sel"
    and "GetAll_fault faults = Some err" and "err \<noteq> ErrNoSuchEntity"
  shows "RemoveFilteredPolicy a faults sec ptype fieldIndex fieldValues db = Inr (Some err, db)"
  using assms by (simp add: RemoveFilteredPolicy_def GetAll_def)

lemma matches_filteredQuery_bob:
  "filter (matches (filteredQuery unittest [(''ptype'', ''p''), (''v0'', ''bob'')]))
     (entities store1) = []"
  by (simp add: filteredQuery_def newQuery_shape Query_Filter_def store1_def matches_def
      filterHolds_def property_def savePolicyLine_def unittest_config)

theorem RemoveFilteredPolicy_no_match_witness:
  "RemoveFilteredPolicy unittest noFaults ''p'' ''p'' 0 [''bob''] store1 = Inr (None, store1) \<and>
   RemoveFilteredPolicy unittest (noFaults\<lparr>GetAll_fault := Some ErrNoSuchEntity\<rparr>)
     ''p'' ''p'' 0 [''alice''] store1 = Inr (None, store1)"
proof -
  have a1: "- (2 ^ 63) \<le> (0::int)" by simp
  have a2: "(0::int) < 2 ^ 63" by simp
  have a3: "int (length [''bob'']) < 2 ^ 63" by simp
  have a4: "int (length [''alice'']) < 2 ^ 63" by simp
  have sel: "buildSelector ''p'' 0 [''bob''] = Inr [(''ptype'', ''p''), (''v0'', ''bob'')]"
    by (simp add: buildSelector_def selectSlot_def index_def int64_def)
  have none: "\<forall>sel. buildSelector ''p'' 0 [''bob''] = Inr sel \<longrightarrow>
      (\<forall>e \<in> set (entities store1). \<not> matches (filteredQuery unittest sel) e)"
    using matches_filteredQuery_bob by (simp add: sel filter_empty_conv)
  have "RemoveFilteredPolicy unittest noFaults ''p'' ''p'' 0 [''bob''] store1 =
      Inr (DeleteMulti_fault noFaults, store1)"
    using RemoveFilteredPolicy_no_match [OF a1 a2 a3, of noFaults unittest "''p''" "''p''" store1]
      none by (simp add: noFaults_def)
  moreover have "RemoveFilteredPolicy unittest (noFaults\<lparr>GetAll_fault := Some ErrNoSuchEntity\<rparr>)
     ''p'' ''p'' 0 [''alice''] store1 = Inr (None, store1)"
    using RemoveFilteredPolicy_no_match [OF a1 a2 a4,
        of "noFaults\<lparr>GetAll_fault := Some ErrNoSuchEntity\<rparr>" unittest "''p''" "''p''" store1]
    by simp
  ultimately show ?thesis by (simp add: noFaults_def)
qed

lemma RemoveFilteredPolicy_match_example:
  "RemoveFilteredPolicy unittest noFaults ''p'' ''p'' 1 [''data1''] store1 =
     Inr (None, store1\<lparr>entities := tl (entities store1)\<rparr>)"
  by (simp add: RemoveFilteredPolicy_def buildSelector_def selectSlot_def index_def int64_def
      filteredQuery_def newQuery_shape Query_Filter_def GetAll_def noFaults_def DeleteMulti_def
      deleteEntity_def AList.delete_eq
      store1_def matches_def filterHolds_def property_def savePolicyLine_def unittest_config
      pseudoRootKey_shape)

section \<open>Properties of saving\<close>

lemma putLines_fault:
  "\<exists>j < length lines. Transaction_Put_fault faults (i + j) \<noteq> None \<Longrightarrow>
   fst (putLines a faults ancestor i lines tx) \<noteq> None"
proof (induction lines arbitrary: i tx)
  case Nil
  then show ?case by simp
next
  case (Cons line lines)
  show ?case
  proof (cases "Transaction_Put_fault faults i")
    case (Some e)
    then show ?thesis by (simp add: Transaction_Put_def)
  next
    case None
    from Cons.prems obtain j where j: "j < Suc (length lines)"
      "Transaction_Put_fault faults (i + j) \<noteq> None" by auto
    with None obtain j' where "j = Suc j'" by (cases j) auto
    with j have "\<exists>j < length lines. Transaction_Put_fault faults (Suc i + j) \<noteq> None"
      by auto
    then have "fst (putLines a faults ancestor (Suc i) lines
        (tx @ [PutMutation (SavePolicy_key a ancestor line) line])) \<noteq> None"
      by (rule Cons.IH)
    with None show ?thesis by (simp add: Transaction_Put_def)
  qed
qed

lemma putLines_no_fault:
  "\<forall>j < length lines. Transaction_Put_fault faults (i + j) = None \<Longrightarrow>
   putLines a faults ancestor i lines tx =
     (None, tx @ map (\<lambda>line. PutMutation (SavePolicy_key a ancestor line) line) lines)"
proof (induction lines arbitrary: i tx)
  case Nil
  then show ?case by simp
next
  case (Cons line lines)
  from Cons.prems have here: "Transaction_Put_fault faults i = None"
    by (metis add.right_neutral length_greater_0_conv list.distinct(1))
  from Cons.prems have "\<forall>j < length lines. Transaction_Put_fault faults (Suc i + j) = None"
    by (metis Suc_less_eq add_Suc_right add_Suc length_Cons)
  then have "putLines a faults ancestor (Suc i) lines
      (tx @ [PutMutation (SavePolicy_key a ancestor line) line]) =
     (None, (tx @ [PutMutation (SavePolicy_key a ancestor line) line]) @
        map (\<lambda>line. PutMutation (SavePolicy_key a ancestor line) line) lines)"
    by (rule Cons.IH)
  with here show ?case by (simp add: Transaction_Put_def)
qed

lemma RunInTransaction_failed:
  "fst (RunInTransaction commitFault f db) \<noteq> None \<Longrightarrow>
   snd (RunInTransaction commitFault f db) = db"
  by (auto simp: RunInTransaction_def split: prod.splits option.splits)

lemma RunInTransaction_step_failed:
  "fst (f []) \<noteq> None \<Longrightarrow> RunInTransaction commitFault f db = (fst (f []), db)"
  by (auto simp: RunInTransaction_def split: prod.splits option.splits)

lemma RunInTransaction_commit_failed:
  "commitFault \<noteq> None \<Longrightarrow> fst (RunInTransaction commitFault f db) \<noteq> None"
  by (auto simp: RunInTransaction_def split: prod.splits option.splits)

lemma SavePolicy_unfold:
  "SavePolicy a faults model db =
     (case GetAll (GetAll_fault faults) (Query_KeysOnly (newQuery a)) db of
        Inl err \<Rightarrow> (Some err, db)
      | Inr (keys, rules) \<Rightarrow>
          RunInTransaction (Commit_fault faults)
            (SavePolicy_transaction a faults keys (pseudoRootKey a) (SavePolicy_lines model)) db)"
  by (simp add: SavePolicy_def Let_def split: sum.splits prod.splits)

lemma SavePolicy_transaction_failed:
  assumes "Transaction_DeleteMulti_fault faults \<noteq> None \<or>
           (\<exists>i < length lines. Transaction_Put_fault faults i \<noteq> None)"
  shows "fst (SavePolicy_transaction a faults keys (pseudoRootKey a) lines tx) \<noteq> None"
proof (cases "Transaction_DeleteMulti_fault faults")
  case (Some e)
  then show ?thesis
    by (simp add: SavePolicy_transaction_def Transaction_DeleteMulti_def)
next
  case None
  with assms have "\<exists>i < length lines. Transaction_Put_fault faults (0 + i) \<noteq> None"
    by simp
  then have "fst (putLines a faults (pseudoRootKey a) 0 lines (tx @ map DeleteMutation keys))
      \<noteq> None"
    by (rule putLines_fault)
  with None show ?thesis
    by (simp add: SavePolicy_transaction_def Transaction_DeleteMulti_def)
qed

text \<open>
  C3. \<open>SavePolicy\<close> deletes the existing keys and puts the new records inside one
  transaction of the store. If the keys-only fetch fails, it returns that error and the
  store is as it was. Whenever it returns an error the store is as it was; and it
  returns an error when the delete, any of the puts or the commit of the transaction
  fails: no delete and no put of the call takes effect.
\<close>

theorem SavePolicy_atomic:
  "(GetAll_fault faults = Some e \<longrightarrow> SavePolicy a faults model db = (Some e, db)) \<and>
   (fst (SavePolicy a faults model db) \<noteq> None \<longrightarrow> snd (SavePolicy a faults model db) = db) \<and>
   (GetAll_fault faults = None \<and>
    (Transaction_DeleteMulti_fault faults \<noteq> None \<or>
     (\<exists>i < length (SavePolicy_lines model). Transaction_Put_fault faults i \<noteq> None) \<or>
     Commit_fault faults \<noteq> None) \<longrightarrow>
      fst (SavePolicy a faults model db) \<noteq> None \<and> snd (SavePolicy a faults model db) = db)"
proof (intro conjI impI)
  assume "GetAll_fault faults = Some e"
  then show "SavePolicy a faults model db = (Some e, db)"
    by (simp add: SavePolicy_unfold GetAll_def)
next
  assume "fst (SavePolicy a faults model db) \<noteq> None"
  then show "snd (SavePolicy a faults model db) = db"
    by (auto simp: SavePolicy_unfold RunInTransaction_failed split: sum.splits prod.splits)
next
  assume h: "GetAll_fault faults = None \<and>
    (Transaction_DeleteMulti_fault faults \<noteq> None \<or>
     (\<exists>i < length (SavePolicy_lines model). Transaction_Put_fault faults i \<noteq> None) \<or>
     Commit_fault faults \<noteq> None)"
  then obtain keys where
    run: "SavePolicy a faults model db =
      RunInTransaction (Commit_fault faults)
        (SavePolicy_transaction a faults keys (pseudoRootKey a) (SavePolicy_lines model)) db"
    by (auto simp: SavePolicy_unfold GetAll_def Let_def)
  show "fst (SavePolicy a faults model db) \<noteq> None"
  proof (cases "Commit_fault faults")
    case (Some c)
    then show ?thesis
      by (simp add: run RunInTransaction_commit_failed)
  next
    case None
    with h have "fst (SavePolicy_transaction a faults keys (pseudoRootKey a) (SavePolicy_lines model) []) \<noteq> None"
      by (intro SavePolicy_transaction_failed) simp
    then show ?thesis
      by (simp add: run RunInTransaction_step_failed)
  qed
  then show "snd (SavePolicy a faults model db) = db"
    by (simp add: run RunInTransaction_failed)
qed

lemma SavePolicy_committed:
  assumes "GetAll_fault faults = None" and "Transaction_DeleteMulti_fault faults = None"
    and "\<forall>i < length (SavePolicy_lines model). Transaction_Put_fault faults i = None"
    and "Commit_fault faults = None"
  shows "SavePolicy a faults model db =
    (None,
     fold applyMutation
       (map DeleteMutation (map fst (filter (matches (newQuery a)) (entities db))) @
        map (\<lambda>line. PutMutation (SavePolicy_key a (pseudoRootKey a) line) line)
          (SavePolicy_lines model))
       db)"
proof -
  have "\<forall>j < length (SavePolicy_lines model). Transaction_Put_fault faults (0 + j) = None"
    using assms(3) by simp
  note puts = putLines_no_fault [OF this]
  have q: "matches (Query_KeysOnly (newQuery a)) = matches (newQuery a)"
    by (auto simp: matches_def Query_KeysOnly_def fun_eq_iff)
  show ?thesis
    using assms(1,2,4)
    by (simp add: SavePolicy_unfold GetAll_def SavePolicy_transaction_def Transaction_DeleteMulti_def
        RunInTransaction_def puts q Let_def)
qed


lemma SavePolicy_lines_model2:
  "SavePolicy_lines model2 =
     [savePolicyLine ''p'' [''alice'', ''data1'', ''read''],
      savePolicyLine ''p'' [''bob'', ''data2'', ''write'']]"
  by (simp add: SavePolicy_lines_def policyLines_def model2_def)

theorem SavePolicy_atomic_witness:
  "fst (SavePolicy unittest secondPutFails model2 store1) \<noteq> None \<and>
   snd (SavePolicy unittest secondPutFails model2 store1) = store1"
proof -
  have "Transaction_Put_fault secondPutFails 1 \<noteq> None"
    by (simp add: secondPutFails_def)
  then have "\<exists>i < length (SavePolicy_lines model2). Transaction_Put_fault secondPutFails i \<noteq> None"
    by (auto simp: SavePolicy_lines_model2 intro: exI [of _ 1])
  moreover have "GetAll_fault secondPutFails = None"
    by (simp add: secondPutFails_def noFaults_def)
  ultimately show ?thesis
    using SavePolicy_atomic [of secondPutFails _ unittest model2 store1] by blast
qed

lemma String_alice_read:
  "CasbinRule_String (savePolicyLine ''p'' [''alice'', ''data1'', ''read'']) =
     ''p,alice,data1,read''"
  by (simp add: String_tokens identityTokens_def ruleFields_def savePolicyLine_def TrimSpace_eval)

lemma String_bob_write:
  "CasbinRule_String (savePolicyLine ''p'' [''bob'', ''data2'', ''write'']) =
     ''p,bob,data2,write''"
  by (simp add: String_tokens identityTokens_def ruleFields_def savePolicyLine_def TrimSpace_eval)

lemma SavePolicy_committed_example:
  "SavePolicy unittest noFaults model2 store1 =
     (None,
      \<lparr>entities =
         [(Key ''casbin_test'' 1001 []
             (Some (Key ''casbin_test'' 1 [] None ''unittest'')) ''unittest'',
           savePolicyLine [] [''bob'', ''data2'', ''write'']),
          (Key ''casbin_test'' 0 ''p,alice,data1,read''
             (Some (Key ''casbin_test'' 1 [] None ''unittest'')) ''unittest'',
           savePolicyLine ''p'' [''alice'', ''data1'', ''read'']),
          (Key ''casbin_test'' 0 ''p,bob,data2,write''
             (Some (Key ''casbin_test'' 1 [] None ''unittest'')) ''unittest'',
           savePolicyLine ''p'' [''bob'', ''data2'', ''write''])],
       nextID = 1002\<rparr>)"
proof -
  let ?root = "Key ''casbin_test'' 1 [] None ''unittest''"
  let ?alice = "Key ''casbin_test'' 0 ''p,alice,data1,read'' (Some ?root) ''unittest''"
  let ?bob = "Key ''casbin_test'' 0 ''p,bob,data2,write'' (Some ?root) ''unittest''"
  have found: "map fst (filter (matches (newQuery unittest)) (entities store1)) = [?alice]"
    by (simp add: newQuery_shape store1_def matches_def filterHolds_def property_def
        savePolicyLine_def unittest_config pseudoRootKey_shape)
  have puts: "map (\<lambda>line. PutMutation (SavePolicy_key unittest (pseudoRootKey unittest) line) line)
      (SavePolicy_lines model2) =
    [PutMutation ?alice (savePolicyLine ''p'' [''alice'', ''data1'', ''read'']),
     PutMutation ?bob (savePolicyLine ''p'' [''bob'', ''data2'', ''write''])]"
    by (simp add: SavePolicy_lines_model2 SavePolicy_key_shape String_alice_read
        String_bob_write unittest_config pseudoRootKey_shape)
  have "SavePolicy unittest noFaults model2 store1 =
    (None,
     fold applyMutation
       (map DeleteMutation (map fst (filter (matches (newQuery unittest)) (entities store1))) @
        map (\<lambda>line. PutMutation (SavePolicy_key unittest (pseudoRootKey unittest) line) line)
          (SavePolicy_lines model2))
       store1)"
    by (rule SavePolicy_committed) (simp_all add: noFaults_def)
  then have "SavePolicy unittest noFaults model2 store1 =
    (None,
     fold applyMutation
       [DeleteMutation ?alice,
        PutMutation ?alice (savePolicyLine ''p'' [''alice'', ''data1'', ''read'']),
        PutMutation ?bob (savePolicyLine ''p'' [''bob'', ''data2'', ''write''])]
       store1)"
    by (simp only: found puts list.map append.simps)
  then show ?thesis
    by (simp add: applyMutation_def deleteEntity_def putEntity_def Incomplete_def store1_def
        AList.delete_eq)
qed

section \<open>Properties of adding\<close>

lemma commaJoin_nonempty: "x \<noteq> [] \<Longrightarrow> commaJoin (x # xs) \<noteq> []"
  by (cases xs) simp_all

lemma String_nonempty: "TrimSpace (PType cr) \<noteq> [] \<Longrightarrow> CasbinRule_String cr \<noteq> []"
  by (simp add: String_tokens identityTokens_def ruleFields_def commaJoin_nonempty)

lemma trimmed_slot:
  "TrimSpace (if i < length rule then rule ! i else []) =
     (if i < length (map TrimSpace rule) then map TrimSpace rule ! i else [])"
  by (simp add: TrimSpace_Nil)

lemma trimmed_fields_savePolicyLine:
  "map TrimSpace (ruleFields (savePolicyLine ptype rule)) =
     TrimSpace ptype #
     map (\<lambda>i. if i < length (map TrimSpace rule) then map TrimSpace rule ! i else [])
       [0, 1, 2, 3, 4, 5]"
  using trimmed_slot [of 0 rule] trimmed_slot [of 1 rule] trimmed_slot [of 2 rule]
    trimmed_slot [of 3 rule] trimmed_slot [of 4 rule] trimmed_slot [of 5 rule]
  by (simp add: ruleFields_def savePolicyLine_def)

lemma String_trimmed_fields:
  assumes "map TrimSpace rule1 = map TrimSpace rule2"
  shows "CasbinRule_String (savePolicyLine ptype rule1) =
         CasbinRule_String (savePolicyLine ptype rule2)"
  by (simp only: String_tokens identityTokens_def trimmed_fields_savePolicyLine assms)

lemma AddPolicy_complete_key:
  assumes "Put_fault faults = None" and "TrimSpace ptype \<noteq> []"
  shows "AddPolicy a faults sec ptype rule db =
    (None, db\<lparr>entities :=
       AList.update (AddPolicy_key a (savePolicyLine ptype rule)) (savePolicyLine ptype rule)
         (entities db)\<rparr>)"
proof -
  have "PType (savePolicyLine ptype rule) = ptype"
    by (simp add: savePolicyLine_def)
  with assms(2) have "CasbinRule_String (savePolicyLine ptype rule) \<noteq> []"
    by (simp add: String_nonempty)
  then have "\<not> Incomplete (AddPolicy_key a (savePolicyLine ptype rule))"
    by (simp add: Incomplete_def AddPolicy_key_shape)
  with assms(1) show ?thesis
    by (simp add: AddPolicy_def Put_def putEntity_def Let_def)
qed

text \<open>
  C9, as the code has it. For every rule type that is not blank and every pair of field
  lists that become equal after trimming each field, the two encoded records have the
  same identity and the same storage key; \<open>AddPolicy\<close> of the second after \<open>AddPolicy\<close> of
  the first replaces the record stored under that key, adding no key and touching no
  other record, and both calls return no error; and the record stored is the second
  one with its slot values as they were passed, not trimmed.
\<close>

theorem trimmed_equal_rules_collide:
  assumes "map TrimSpace rule1 = map TrimSpace rule2"
    and "TrimSpace ptype \<noteq> []"
    and "Put_fault faults = None"
    and "db1 = snd (AddPolicy a faults sec ptype rule1 db)"
    and "db2 = snd (AddPolicy a faults sec ptype rule2 db1)"
    and "key = AddPolicy_key a (savePolicyLine ptype rule1)"
  shows "CasbinRule_String (savePolicyLine ptype rule1) =
           CasbinRule_String (savePolicyLine ptype rule2) \<and>
         AddPolicy_key a (savePolicyLine ptype rule2) = key \<and>
         map_of (entities db1) key = Some (savePolicyLine ptype rule1) \<and>
         map_of (entities db2) key = Some (savePolicyLine ptype rule2) \<and>
         map fst (entities db2) = map fst (entities db1) \<and>
         (\<forall>k. k \<noteq> key \<longrightarrow> map_of (entities db2) k = map_of (entities db1) k) \<and>
         (\<forall>i < min 6 (length rule2). slots (savePolicyLine ptype rule2) ! i = rule2 ! i) \<and>
         fst (AddPolicy a faults sec ptype rule1 db) = None \<and>
         fst (AddPolicy a faults sec ptype rule2 db1) = None"
proof -
  have ok1: "fst (AddPolicy a faults sec ptype rule1 db) = None"
    by (simp add: AddPolicy_complete_key [OF assms(3,2)])
  have ok2: "fst (AddPolicy a faults sec ptype rule2 db1) = None"
    by (simp add: AddPolicy_complete_key [OF assms(3,2)])
  have same: "CasbinRule_String (savePolicyLine ptype rule1) =
      CasbinRule_String (savePolicyLine ptype rule2)"
    using assms(1) by (rule String_trimmed_fields)
  then have key2: "AddPolicy_key a (savePolicyLine ptype rule2) = key"
    by (simp add: assms(6) AddPolicy_key_shape)
  have db1: "entities db1 = AList.update key (savePolicyLine ptype rule1) (entities db)"
    by (simp add: assms(4,6) AddPolicy_complete_key [OF assms(3,2)])
  have db2: "entities db2 = AList.update key (savePolicyLine ptype rule2) (entities db1)"
    using key2 by (simp add: assms(5) AddPolicy_complete_key [OF assms(3,2)])
  have stored1: "map_of (entities db1) key = Some (savePolicyLine ptype rule1)"
    by (simp add: db1 update_conv')
  have stored2: "map_of (entities db2) key = Some (savePolicyLine ptype rule2)"
    by (simp add: db2 update_conv')
  have "key \<in> set (map fst (entities db1))"
    by (simp add: db1 dom_update)
  then have keys: "map fst (entities db2) = map fst (entities db1)"
    by (simp add: db2 update_keys)
  have others: "\<forall>k. k \<noteq> key \<longrightarrow> map_of (entities db2) k = map_of (entities db1) k"
    by (simp add: db2 update_conv')
  have raw: "\<forall>i < min 6 (length rule2). slots (savePolicyLine ptype rule2) ! i = rule2 ! i"
  proof (intro allI impI)
    fix i assume "i < min 6 (length rule2)"
    then have "i \<in> {0, 1, 2, 3, 4, 5}" and "i < length rule2" by auto
    then show "slots (savePolicyLine ptype rule2) ! i = rule2 ! i"
      by (auto simp: slots_def savePolicyLine_def)
  qed
  from same key2 stored1 stored2 keys others raw ok1 ok2 show ?thesis
    by (intro conjI)
qed

theorem trimmed_equal_rules_collide_witness:
  "map TrimSpace [''alice'', ''data1''] = map TrimSpace ['' alice'', ''data1 ''] \<and>
   TrimSpace ''p'' \<noteq> [] \<and>
   map_of
     (entities (snd (AddPolicy unittest noFaults ''p'' ''p'' ['' alice'', ''data1 '']
        (snd (AddPolicy unittest noFaults ''p'' ''p'' [''alice'', ''data1''] emptyStore)))))
     (AddPolicy_key unittest (savePolicyLine ''p'' [''alice'', ''data1''])) =
   Some (savePolicyLine ''p'' ['' alice'', ''data1 '']) \<and>
   fst (AddPolicy unittest noFaults ''p'' ''p'' ['' alice'', ''data1 '']
        (snd (AddPolicy unittest noFaults ''p'' ''p'' [''alice'', ''data1''] emptyStore))) = None"
proof -
  have a1: "map TrimSpace [''alice'', ''data1''] = map TrimSpace ['' alice'', ''data1 '']"
    by (simp add: TrimSpace_eval)
  have a2: "TrimSpace ''p'' \<noteq> []"
    by (simp add: TrimSpace_p)
  have a3: "Put_fault noFaults = None"
    by (simp add: noFaults_def)
  note c = trimmed_equal_rules_collide [OF a1 a2 a3 refl refl refl,
      where a = unittest and sec = "''p''" and db = emptyStore]
  from c have stored: "map_of
     (entities (snd (AddPolicy unittest noFaults ''p'' ''p'' ['' alice'', ''data1 '']
        (snd (AddPolicy unittest noFaults ''p'' ''p'' [''alice'', ''data1''] emptyStore)))))
     (AddPolicy_key unittest (savePolicyLine ''p'' [''alice'', ''data1''])) =
   Some (savePolicyLine ''p'' ['' alice'', ''data1 ''])"
    by (elim conjE)
  from c have silent: "fst (AddPolicy unittest noFaults ''p'' ''p'' ['' alice'', ''data1 '']
        (snd (AddPolicy unittest noFaults ''p'' ''p'' [''alice'', ''data1''] emptyStore))) = None"
    by (elim conjE)
  from a1 a2 stored silent show ?thesis
    by (intro conjI)
qed

text \<open>
  C9 as stated fails for a blank rule type: the identity is the empty string, the key
  has no name, and the store inserts each record under an id it generates. After the
  two calls both records are stored.
\<close>

theorem blank_type_counterexample:
  "entities (snd (AddPolicy unittest noFaults [] [] ['' a'']
      (snd (AddPolicy unittest noFaults [] [] [''a''] emptyStore)))) =
   [(Key ''casbin_test'' 1000 []
       (Some (Key ''casbin_test'' 1 [] None ''unittest'')) ''unittest'',
     savePolicyLine [] [''a'']),
    (Key ''casbin_test'' 1001 []
       (Some (Key ''casbin_test'' 1 [] None ''unittest'')) ''unittest'',
     savePolicyLine [] ['' a''])]"
  by (simp add: AddPolicy_def AddPolicy_key_shape String_blank_type savePolicyLine_def
      TrimSpace_Nil Put_def noFaults_def putEntity_def Incomplete_def emptyStore_def
      unittest_config pseudoRootKey_shape)

text \<open>The overwrite, computed; the two records differ although their identities agree.\<close>

lemma String_padded:
  "CasbinRule_String (savePolicyLine ''p'' ['' alice'', ''data1 '']) = ''p,alice,data1''"
  by (simp add: String_tokens identityTokens_def ruleFields_def savePolicyLine_def TrimSpace_eval)

lemma collision_example:
  "entities (snd (AddPolicy unittest noFaults ''p'' ''p'' ['' alice'', ''data1 '']
      (snd (AddPolicy unittest noFaults ''p'' ''p'' [''alice'', ''data1''] emptyStore)))) =
   [(Key ''casbin_test'' 0 ''p,alice,data1''
       (Some (Key ''casbin_test'' 1 [] None ''unittest'')) ''unittest'',
     savePolicyLine ''p'' ['' alice'', ''data1 ''])]"
proof -
  have s1: "CasbinRule_String (savePolicyLine ''p'' [''alice'', ''data1'']) = ''p,alice,data1''"
    by (simp add: String_tokens identityTokens_def ruleFields_def savePolicyLine_def
        TrimSpace_eval)
  show ?thesis
    by (simp add: AddPolicy_def AddPolicy_key_shape s1 String_padded Put_def noFaults_def
        putEntity_def Incomplete_def emptyStore_def unittest_config pseudoRootKey_shape)
qed

lemma stored_record_not_trimmed:
  "savePolicyLine ''p'' ['' alice'', ''data1 ''] \<noteq> savePolicyLine ''p'' [''alice'', ''data1'']"
  by (simp add: savePolicyLine_def)

end
